theory Spec2Isabelle
  imports Complex_Main "HOL-Library.Word"
begin

unbundle bit_operations_syntax

section \<open>Python values, bytes and exceptions\<close>

text \<open>
  The fields of a \<open>LedOutput\<close> named tuple hold arbitrary Python numbers. An \<open>int\<close>
  (unbounded; \<open>bool\<close> is a subclass of \<open>int\<close> and behaves as 0 or 1) is \<open>PyInt\<close>,
  a finite \<open>float\<close> is \<open>PyFloat\<close> with its exact rational value (Python compares
  an int with a float exactly). NaN, the infinities and values that do not compare
  with an int are outside the model.
\<close>

datatype pyval = PyInt int | PyFloat rat

type_synonym byte = "8 word"

text \<open>
  An f-string message is kept as its fragments: literal text and \<open>{x!r}\<close>
  interpolations. Messages of exceptions raised by the interpreter itself are not
  modelled (they are the empty list).
\<close>

datatype frag = Lit string | Repr pyval

datatype pyerror =
    ValueError "frag list"
  | IndexError "frag list"
  | TypeError
  | StructError
  | OSError

text \<open>\<open>LedOutput = namedtuple('LedOutput', ('brt', 'r', 'g', 'b'))\<close>;
  the selectors \<open>r\<close>, \<open>g\<close>, \<open>b\<close> are spelled out.\<close>

datatype LedOutput = LedOutput (brt: pyval) (red: pyval) (green: pyval) (blue: pyval)

definition APA102_START :: "byte list" where
  "APA102_START = [0, 0, 0, 0]"

subsection \<open>Python primitives used by the module\<close>

text \<open>\<open>lo <= x <= hi\<close> for integer bounds.\<close>

fun between :: "int \<Rightarrow> pyval \<Rightarrow> int \<Rightarrow> bool" where
  "between lo (PyInt n) hi = (lo \<le> n \<and> n \<le> hi)"
| "between lo (PyFloat q) hi = (of_int lo \<le> q \<and> q \<le> of_int hi)"

text \<open>\<open>isinstance(x, int)\<close>.\<close>

fun isinstance_int :: "pyval \<Rightarrow> bool" where
  "isinstance_int (PyInt n) = True"
| "isinstance_int (PyFloat q) = False"

text \<open>\<open>x | k\<close> for an int \<open>k\<close>: a \<open>TypeError\<close> on a float.\<close>

fun py_or :: "pyval \<Rightarrow> int \<Rightarrow> pyerror + pyval" where
  "py_or (PyInt n) k = Inr (PyInt (n OR k))"
| "py_or (PyFloat q) k = Inl TypeError"

text \<open>The \<open>B\<close> format of \<open>struct.pack\<close>: an integer within 0..255, else \<open>struct.error\<close>.\<close>

fun is_ubyte :: "pyval \<Rightarrow> bool" where
  "is_ubyte (PyInt n) = (0 \<le> n \<and> n \<le> 255)"
| "is_ubyte (PyFloat q) = False"

fun to_byte :: "pyval \<Rightarrow> byte" where
  "to_byte (PyInt n) = word_of_int n"
| "to_byte (PyFloat q) = 0"

definition struct_pack_BBBB :: "pyval list \<Rightarrow> pyerror + byte list" where
  "struct_pack_BBBB vs = (if list_all is_ubyte vs then Inr (map to_byte vs) else Inl StructError)"

text \<open>
  \<open>d[k] = v\<close> on a bytearray: the index is checked first, then the value
  (\<open>TypeError\<close> on a non-integer, \<open>ValueError\<close> outside \<open>range(0, 256)\<close>).
  The buffer is returned in both cases, since it is mutated in place.
\<close>

definition bytearray_setitem :: "byte list \<Rightarrow> nat \<Rightarrow> pyval \<Rightarrow> (pyerror + unit) \<times> byte list" where
  "bytearray_setitem d k v =
     (if length d \<le> k then (Inl (IndexError []), d)
      else (case v of
              PyFloat q \<Rightarrow> (Inl TypeError, d)
            | PyInt n \<Rightarrow>
                if 0 \<le> n \<and> n < 256 then (Inr (), d[k := word_of_int n])
                else (Inl (ValueError []), d)))"

text \<open>
  The bounds of the slice \<open>xs[start:stop]\<close> of a sequence of length \<open>n\<close>: a negative
  bound counts from the end, and both are clamped to \<open>0..n\<close>.
\<close>

definition slice_bound :: "nat \<Rightarrow> int \<Rightarrow> nat" where
  "slice_bound n k = (if k < 0 then nat (max (k + int n) 0) else nat (min k (int n)))"

definition py_slice :: "'a list \<Rightarrow> int \<Rightarrow> int \<Rightarrow> 'a list" where
  "py_slice xs start stop =
     (let lo = slice_bound (length xs) start; hi = slice_bound (length xs) stop
      in take (hi - lo) (drop lo xs))"

text \<open>
  \<open>view[start:stop] = src\<close> on a memoryview: the view cannot be resized, so a source
  of another length than the slice is a \<open>ValueError\<close>.
\<close>

definition memoryview_assign :: "byte list \<Rightarrow> int \<Rightarrow> int \<Rightarrow> byte list \<Rightarrow> pyerror + byte list" where
  "memoryview_assign xs start stop src =
     (let lo = slice_bound (length xs) start; hi = slice_bound (length xs) stop
      in if hi - lo = length src then Inr (take lo xs @ src @ drop (lo + length src) xs)
         else Inl (ValueError []))"

section \<open>The module's functions\<close>

definition check_ledoutput_range :: "LedOutput \<Rightarrow> pyerror + unit" where
  "check_ledoutput_range out =
     (if \<not> (between 0 (brt out) 0x1f \<and> isinstance_int (brt out)) then
        Inl (ValueError [Lit ''LedOutput'', Lit '': brightness setting invalid '',
                         Lit ''got '', Repr (brt out), Lit '', expected integer within [0, 0x1f]''])
      else if \<not> (between 0 (red out) 0xff \<and> isinstance_int (red out)) then
        Inl (ValueError [Lit ''LedOutput'', Lit '': red setting invalid: '',
                         Lit ''got '', Repr (red out), Lit '', expected integer within [0, 0xff]''])
      else if \<not> (between 0 (green out) 0xff \<and> isinstance_int (green out)) then
        Inl (ValueError [Lit ''LedOutput'', Lit '': green setting invalid: '',
                         Lit ''got '', Repr (red out), Lit '', expected integer within [0, 0xff]''])
      else if \<not> (between 0 (blue out) 0xff \<and> isinstance_int (blue out)) then
        Inl (ValueError [Lit ''LedOutput'', Lit '': blue setting invalid: '',
                         Lit ''got '', Repr (red out), Lit '', expected integer within [0, 0xff]''])
      else Inr ())"

text \<open>
  \<open>if leds\<close> and \<open>if edges_required % 16\<close> test for a non-zero value; \<open>//\<close> and \<open>%\<close>
  round towards minus infinity as \<open>div\<close> and \<open>mod\<close> do; \<open>range(k)\<close> is empty for
  \<open>k \<le> 0\<close>, so the loop appends \<open>nat k\<close> zero bytes.
\<close>

definition generate_end_sequence :: "int \<Rightarrow> byte list" where
  "generate_end_sequence n =
     (let edges_required = (if n \<noteq> 0 then n - 1 else 0);
          bytes_required =
            (if edges_required \<noteq> 0 then
               (if edges_required mod 16 \<noteq> 0 then edges_required div 16 + 1
                else edges_required div 16)
             else 0)
      in replicate (nat bytes_required) 0)"

definition pack_wrgb :: "LedOutput \<Rightarrow> pyerror + byte list" where
  "pack_wrgb out =
     (case py_or (brt out) 0xe0 of
        Inl e \<Rightarrow> Inl e
      | Inr w \<Rightarrow> struct_pack_BBBB [w, blue out, green out, red out])"

definition pack_wrgb_direct :: "byte list \<Rightarrow> LedOutput \<Rightarrow> (pyerror + unit) \<times> byte list" where
  "pack_wrgb_direct d out =
     (case py_or (brt out) 0xe0 of
        Inl e \<Rightarrow> (Inl e, d)
      | Inr w \<Rightarrow>
         (case bytearray_setitem d 0 w of
            (Inl e, d0) \<Rightarrow> (Inl e, d0)
          | (Inr u0, d0) \<Rightarrow>
             (case bytearray_setitem d0 1 (blue out) of
                (Inl e, d1) \<Rightarrow> (Inl e, d1)
              | (Inr u1, d1) \<Rightarrow>
                 (case bytearray_setitem d1 2 (green out) of
                    (Inl e, d2) \<Rightarrow> (Inl e, d2)
                  | (Inr u2, d2) \<Rightarrow> bytearray_setitem d2 3 (red out)))))"

text \<open>Indexing a command of fewer than four bytes is an \<open>IndexError\<close>.\<close>

definition ledoutput_from_led_command :: "byte list \<Rightarrow> pyerror + LedOutput" where
  "ledoutput_from_led_command command =
     (if length command < 4 then Inl (IndexError [])
      else Inr (LedOutput (PyInt (uint (command ! 0 AND 0x1f))) (PyInt (uint (command ! 3)))
                          (PyInt (uint (command ! 2))) (PyInt (uint (command ! 1)))))"

section \<open>The APA102 controller\<close>

text \<open>
  The object's fields. \<open>_view\<close> is a memoryview of \<open>_data\<close>: the same bytes, so the
  model reads and writes \<open>data\<close> for both. The GPIO lines are the external
  collaborator: a handle of any type \<open>'h\<close> with a \<open>set_values\<close> function that takes a
  (clock, data) pair and the handle, and returns the handle and whether it raised.
  A controller that has been closed is outside the model.
\<close>

record APA102 =
  leds :: int
  data_modified :: bool
  data :: "byte list"
  wrgb_buffer :: "byte list"

type_synonym 'h set_values = "int \<times> int \<Rightarrow> 'h \<Rightarrow> (pyerror + unit) \<times> 'h"

text \<open>One bit of \<open>commit\<close>'s loop body, for the shifts \<open>ks\<close> in turn:
  \<open>bit = (byte >> k) & 0x01; set_values((0, bit)); set_values((1, bit))\<close>.\<close>

fun commit_bits :: "'h set_values \<Rightarrow> byte \<Rightarrow> nat list \<Rightarrow> 'h \<Rightarrow> (pyerror + unit) \<times> 'h" where
  "commit_bits sv byte [] h = (Inr (), h)"
| "commit_bits sv byte (k # ks) h =
     (let bit = uint (drop_bit k byte AND 1) in
      case sv (0, bit) h of
        (Inl e, h1) \<Rightarrow> (Inl e, h1)
      | (Inr u1, h1) \<Rightarrow>
         (case sv (1, bit) h1 of
            (Inl e, h2) \<Rightarrow> (Inl e, h2)
          | (Inr u2, h2) \<Rightarrow> commit_bits sv byte ks h2))"

text \<open>The loop body: the eight bits of one byte, shifts 7 down to 0.\<close>

definition commit_byte :: "'h set_values \<Rightarrow> byte \<Rightarrow> 'h \<Rightarrow> (pyerror + unit) \<times> 'h" where
  "commit_byte sv byte h = commit_bits sv byte [7, 6, 5, 4, 3, 2, 1, 0] h"

text \<open>\<open>for i in range(len(self._data)): byte = self._data[i]; ...\<close>\<close>

fun commit_bytes :: "'h set_values \<Rightarrow> byte list \<Rightarrow> 'h \<Rightarrow> (pyerror + unit) \<times> 'h" where
  "commit_bytes sv [] h = (Inr (), h)"
| "commit_bytes sv (byte # rest) h =
     (case commit_byte sv byte h of
        (Inl e, h1) \<Rightarrow> (Inl e, h1)
      | (Inr u, h1) \<Rightarrow> commit_bytes sv rest h1)"

definition commit :: "'h set_values \<Rightarrow> 'h \<times> APA102 \<Rightarrow> (pyerror + unit) \<times> 'h \<times> APA102" where
  "commit sv hs =
     (case hs of (h, s) \<Rightarrow>
        if data_modified s then
          (case commit_bytes sv (data s) h of
             (Inl e, h1) \<Rightarrow> (Inl e, h1, s)
           | (Inr u, h1) \<Rightarrow> (Inr (), h1, s\<lparr>data_modified := False\<rparr>))
        else (Inr (), h, s))"

text \<open>\<open>__len__\<close>.\<close>

definition len_apa102 :: "APA102 \<Rightarrow> int" where
  "len_apa102 s = leds s"

text \<open>
  \<open>__init__\<close>, after the lines \<open>h\<close> have been acquired (opening the chip and
  requesting the lines is the collaborator's part). \<open>len(self)\<close> raises a
  \<open>ValueError\<close> when \<open>__len__\<close> returns a negative number; a failing commit of
  the reset makes the construction fail.
\<close>

definition init :: "'h set_values \<Rightarrow> 'h \<Rightarrow> int \<Rightarrow> bool \<Rightarrow> (pyerror + APA102) \<times> 'h" where
  "init sv h n reset =
     (case pack_wrgb (LedOutput (PyInt 0) (PyInt 0) (PyInt 0) (PyInt 0)) of
        Inl e \<Rightarrow> (Inl e, h)
      | Inr off \<Rightarrow>
          if n < 0 then (Inl (ValueError []), h)
          else
            (let s = \<lparr>leds = n, data_modified = True,
                      data = APA102_START @ concat (replicate (nat n) off)
                             @ generate_end_sequence n,
                      wrgb_buffer = replicate 4 0\<rparr>
             in if reset then
                  (case commit sv (h, s) of
                     (Inl e, h1, s1) \<Rightarrow> (Inl e, h1)
                   | (Inr u, h1, s1) \<Rightarrow> (Inr s1, h1))
                else (Inr s, h)))"

definition out_of_range :: pyerror where
  "out_of_range = IndexError [Lit ''APA102'', Lit '': '', Lit ''out-of-range LED index'']"

definition getitem :: "APA102 \<Rightarrow> int \<Rightarrow> pyerror + LedOutput" where
  "getitem s i =
     (if \<not> (0 \<le> i \<and> i < leds s) then Inl out_of_range
      else ledoutput_from_led_command (py_slice (data s) (4 + i * 4) (8 + i * 4)))"

definition set_unchecked :: "APA102 \<Rightarrow> int \<Rightarrow> LedOutput \<Rightarrow> (pyerror + unit) \<times> APA102" where
  "set_unchecked s i out =
     (case pack_wrgb_direct (wrgb_buffer s) out of
        (Inl e, buf) \<Rightarrow> (Inl e, s\<lparr>wrgb_buffer := buf\<rparr>)
      | (Inr u, buf) \<Rightarrow>
          if buf \<noteq> py_slice (data s) (4 + i * 4) (8 + i * 4) then
            (case memoryview_assign (data s) (4 + i * 4) (8 + i * 4) buf of
               Inl e \<Rightarrow> (Inl e, s\<lparr>wrgb_buffer := buf\<rparr>)
             | Inr dat \<Rightarrow> (Inr (), s\<lparr>wrgb_buffer := buf, data := dat, data_modified := True\<rparr>))
          else (Inr (), s\<lparr>wrgb_buffer := buf\<rparr>))"

definition setitem :: "APA102 \<Rightarrow> int \<Rightarrow> LedOutput \<Rightarrow> (pyerror + unit) \<times> APA102" where
  "setitem s i out =
     (case check_ledoutput_range out of
        Inl e \<Rightarrow> (Inl e, s)
      | Inr u \<Rightarrow>
          if \<not> (0 \<le> i \<and> i < leds s) then (Inl out_of_range, s)
          else set_unchecked s i out)"

subsection \<open>Line handles used to observe a transmission\<close>

text \<open>A handle that records every pair written and never fails.\<close>

definition record_line_state :: "(int \<times> int) list set_values" where
  "record_line_state v w = (Inr (), w @ [v])"

text \<open>A handle that records, and raises \<open>OSError\<close> once its budget of writes is used up.\<close>

definition failing_lines :: "(nat \<times> (int \<times> int) list) set_values" where
  "failing_lines v h =
     (case h of (budget, w) \<Rightarrow>
        if budget = 0 then (Inl OSError, (budget, w)) else (Inr (), (budget - 1, w @ [v])))"

text \<open>
  The pair-writes expected for the bits at shifts \<open>ks\<close> of one byte, for a whole byte
  (most significant bit first) and for a byte sequence: per bit, the data value with the
  clock low, then the same data value with the clock high.
\<close>

definition bits_wave :: "byte \<Rightarrow> nat list \<Rightarrow> (int \<times> int) list" where
  "bits_wave byte ks =
     concat (map (\<lambda>k. [(0, of_bool (bit byte k)), (1, of_bool (bit byte k))]) ks)"

definition byte_wave :: "byte \<Rightarrow> (int \<times> int) list" where
  "byte_wave byte = bits_wave byte [7, 6, 5, 4, 3, 2, 1, 0]"

definition waveform :: "byte list \<Rightarrow> (int \<times> int) list" where
  "waveform bs = concat (map byte_wave bs)"

subsection \<open>The framebuffer invariant\<close>

text \<open>
  What construction establishes, and what the indexed set, commit and the unchecked
  set (for an index within range and integer fields within 0..255) keep: a
  non-negative LED count, a framebuffer of 4 start bytes, 4 bytes per LED and the end
  frame, a 4-byte scratch buffer, and the marker bits \<open>111\<close> on top of the first byte
  of every LED word.
\<close>

definition framebuffer_inv :: "APA102 \<Rightarrow> bool" where
  "framebuffer_inv s =
     (0 \<le> leds s
      \<and> length (data s) = 4 + 4 * nat (leds s) + length (generate_end_sequence (leds s))
      \<and> length (wrgb_buffer s) = 4
      \<and> list_all (\<lambda>j. data s ! (4 + 4 * j) AND 0xe0 = 0xe0) [0..<nat (leds s)])"

section \<open>End-frame length\<close>

lemma div16_between: "16 \<le> x \<Longrightarrow> x < 32 \<Longrightarrow> x div 16 = (1::int)"
  by linarith

lemma ceil16: "(if (e::int) mod 16 \<noteq> 0 then e div 16 + 1 else e div 16) = (e + 15) div 16"
proof -
  define q r where "q = e div 16" and "r = e mod 16"
  have e: "e = r + 16 * q" and r: "0 \<le> r" "r < 16"
    by (simp_all add: q_def r_def)
  have "(e + 15) div 16 = q + (r + 15) div 16"
    unfolding e by (simp add: add.commute add.left_commute)
  moreover have "(r + 15) div 16 = (if r \<noteq> 0 then 1 else 0)"
    using r by (auto intro: div16_between)
  ultimately show ?thesis
    by (simp add: q_def r_def)
qed

lemma ceiling_div16: "\<lceil>of_int e / (16::real)\<rceil> = (e + 15) div 16"
proof -
  have "\<lceil>of_int e / (16::real)\<rceil> = - (- e div 16)"
    using ceiling_divide_eq_div [of e 16] by simp
  also have "\<dots> = (e + 15) div 16"
    by linarith
  finally show ?thesis .
qed

lemma generate_end_sequence_eq:
  "generate_end_sequence n = replicate (nat ((n - 1 + 15) div 16)) 0"
proof (cases "n = 0 \<or> n = 1")
  case True
  then show ?thesis by (auto simp: generate_end_sequence_def)
next
  case False
  then show ?thesis
    using ceil16 [of "n - 1"] by (simp add: generate_end_sequence_def)
qed

lemma generate_end_sequence_ceiling:
  assumes "0 \<le> n"
  shows "generate_end_sequence n = replicate (nat \<lceil>of_int (max (n - 1) 0) / (16::real)\<rceil>) 0"
proof (cases "n = 0")
  case True
  then show ?thesis by (simp add: generate_end_sequence_def)
next
  case False
  with assms have "max (n - 1) 0 = n - 1" by simp
  then show ?thesis
    by (simp only: generate_end_sequence_eq ceiling_div16)
qed

text \<open>
  C1 (amended): for every non-negative LED count \<open>n\<close> the end frame is exactly
  \<open>ceil(max(n - 1, 0) / 16)\<close> zero bytes; for \<open>n\<close> in 0, 1, 2, 16, 17, 1000 the
  byte counts are 0, 0, 1, 1, 1, 63.
\<close>

theorem end_sequence_length:
  "(0 \<le> n \<longrightarrow>
      generate_end_sequence n = replicate (nat \<lceil>of_int (max (n - 1) 0) / (16::real)\<rceil>) 0)
   \<and> map (\<lambda>k. length (generate_end_sequence k)) [0, 1, 2, 16, 17, 1000] = [0, 0, 1, 1, 1, 63]"
proof (intro conjI impI)
  assume "0 \<le> n"
  then show "generate_end_sequence n
             = replicate (nat \<lceil>of_int (max (n - 1) 0) / (16::real)\<rceil>) 0"
    by (rule generate_end_sequence_ceiling)
next
  show "map (\<lambda>k. length (generate_end_sequence k)) [0, 1, 2, 16, 17, 1000]
        = [0, 0, 1, 1, 1, 63]"
    by (simp add: generate_end_sequence_eq)
qed

text \<open>C1 at 40 LEDs: 39 edges, 3 zero bytes.\<close>

theorem end_sequence_length_witness:
  "generate_end_sequence 40 = [0, 0, 0]
   \<and> map (\<lambda>k. length (generate_end_sequence k)) [0, 1, 2, 16, 17, 1000] = [0, 0, 1, 1, 1, 63]"
proof -
  have "nat \<lceil>of_int (max (40 - 1) 0) / (16::real)\<rceil> = 3"
    by (simp add: ceiling_div16)
  then show ?thesis
    using end_sequence_length [of 40] by (simp add: numeral_3_eq_3)
qed

text \<open>
  C1 as stated fails at 17 LEDs: 16 edges fit into one byte, so the end frame has one
  byte (which is also what the ceiling formula gives), not two.
\<close>

theorem end_sequence_17_counterexample:
  "length (generate_end_sequence 17) = 1
   \<and> nat \<lceil>of_int (max (17 - 1) 0) / (16::real)\<rceil> = 1
   \<and> map (\<lambda>k. length (generate_end_sequence k)) [0, 1, 2, 16, 17, 1000] \<noteq> [0, 0, 1, 1, 2, 63]"
  by (simp add: generate_end_sequence_eq ceiling_div16)

section \<open>Packing and unpacking\<close>

lemma or_e0_range: "0 \<le> w \<Longrightarrow> w \<le> 255 \<Longrightarrow> 0 \<le> w OR 0xe0 \<and> w OR 0xe0 \<le> (255::int)"
  using OR_upper [of w 8 "0xe0"] by simp

lemma and_1f_or_e0: "((x::byte) OR 0xe0) AND 0x1f = x AND 0x1f"
  by (simp add: bit.conj_disj_distrib2)

lemma byte_roundtrip: "0 \<le> n \<Longrightarrow> n \<le> 255 \<Longrightarrow> uint (word_of_int n :: byte) = n"
  by (simp add: uint_word_of_int_eq take_bit_int_eq_self)

lemma and_1f_int: "0 \<le> w \<Longrightarrow> w \<le> 31 \<Longrightarrow> w AND 0x1f = (w::int)"
  using take_bit_eq_mask [of 5 w] by (simp add: mask_eq_exp_minus_1 take_bit_int_eq_self)

lemma brt_roundtrip:
  assumes "0 \<le> w" "w \<le> 31"
  shows "uint ((word_of_int (w OR 0xe0) :: byte) AND 0x1f) = w"
proof -
  have "(word_of_int (w OR 0xe0) :: byte) = word_of_int w OR 0xe0"
    by (metis word_of_int_numeral word_wi_log_defs(3))
  then have "uint ((word_of_int (w OR 0xe0) :: byte) AND 0x1f) = uint ((word_of_int w :: byte) AND 0x1f)"
    by (simp only: and_1f_or_e0)
  also have "\<dots> = uint (word_of_int w :: byte) AND 0x1f"
    by (simp add: uint_and)
  also have "\<dots> = w"
    using assms by (simp add: byte_roundtrip and_1f_int)
  finally show ?thesis .
qed

lemma all_ones: "(c0::byte) AND 0xff = c0"
proof -
  have "(0xff::byte) = - 1" by simp
  then show ?thesis by (simp only: and.right_neutral)
qed

lemma marker_roundtrip:
  assumes "c0 AND 0xe0 = (0xe0::byte)"
  shows "word_of_int (uint (c0 AND 0x1f) OR 0xe0) = c0"
proof -
  have "(word_of_int (uint (c0 AND 0x1f) OR 0xe0) :: byte) = (c0 AND 0x1f) OR 0xe0"
    by (metis word_of_int_numeral word_of_int_uint word_wi_log_defs(3))
  also have "\<dots> = (c0 AND 0x1f) OR (c0 AND 0xe0)"
    using assms by simp
  also have "\<dots> = c0 AND (0x1f OR 0xe0)"
    by (simp only: bit.conj_disj_distrib)
  also have "\<dots> = c0"
    using all_ones [of c0] by simp
  finally show ?thesis .
qed

lemma marker_set: "0 \<le> w \<Longrightarrow> w \<le> 255 \<Longrightarrow> (word_of_int (w OR 0xe0) :: byte) AND 0xe0 = 0xe0"
proof -
  have "(word_of_int (w OR 0xe0) :: byte) = word_of_int w OR 0xe0"
    by (metis word_of_int_numeral word_wi_log_defs(3))
  then show ?thesis
    by (simp add: bit.conj_disj_distrib2)
qed

lemma pack_wrgb_valid:
  assumes "0 \<le> w" "w \<le> 255" "0 \<le> r" "r \<le> 255" "0 \<le> g" "g \<le> 255" "0 \<le> b" "b \<le> 255"
  shows "pack_wrgb (LedOutput (PyInt w) (PyInt r) (PyInt g) (PyInt b))
         = Inr [word_of_int (w OR 0xe0), word_of_int b, word_of_int g, word_of_int r]"
  using assms or_e0_range [of w] by (simp add: pack_wrgb_def struct_pack_BBBB_def)

lemma length4: "length d = 4 \<Longrightarrow> \<exists>a0 a1 a2 a3. d = [a0, a1, a2, a3]"
  by (auto simp: numeral_eq_Suc length_Suc_conv)

lemma pack_wrgb_direct_valid:
  assumes "length d = 4"
    and "0 \<le> w" "w \<le> 255" "0 \<le> r" "r \<le> 255" "0 \<le> g" "g \<le> 255" "0 \<le> b" "b \<le> 255"
  shows "pack_wrgb_direct d (LedOutput (PyInt w) (PyInt r) (PyInt g) (PyInt b))
         = (Inr (), [word_of_int (w OR 0xe0), word_of_int b, word_of_int g, word_of_int r])"
proof -
  from assms(1) obtain a0 a1 a2 a3 where d: "d = [a0, a1, a2, a3]"
    using length4 by blast
  show ?thesis
    using assms(2-) or_e0_range [of w]
    by (simp add: d pack_wrgb_direct_def bytearray_setitem_def)
qed

lemma unpack_packed:
  assumes "0 \<le> w" "w \<le> 31" "0 \<le> r" "r \<le> 255" "0 \<le> g" "g \<le> 255" "0 \<le> b" "b \<le> 255"
  shows "ledoutput_from_led_command
           [word_of_int (w OR 0xe0), word_of_int b, word_of_int g, word_of_int r]
         = Inr (LedOutput (PyInt w) (PyInt r) (PyInt g) (PyInt b))"
  using assms brt_roundtrip [of w]
  by (simp add: ledoutput_from_led_command_def byte_roundtrip)

lemma pack_unpacked:
  assumes "c0 AND 0xe0 = (0xe0::byte)"
  shows "\<exists>v. ledoutput_from_led_command [c0, c1, c2, c3] = Inr v \<and> pack_wrgb v = Inr [c0, c1, c2, c3]"
proof -
  have "uint (c0 AND 0x1f) OR 0xe0 = uint ((c0 AND 0x1f) OR 0xe0)"
    by (simp add: uint_or)
  then have "0 \<le> uint (c0 AND 0x1f) OR 0xe0 \<and> uint (c0 AND 0x1f) OR 0xe0 \<le> 255"
    using uint_lt2p [of "(c0 AND 0x1f) OR 0xe0"] by simp
  moreover have "0 \<le> uint c \<and> uint c \<le> 255" for c :: byte
    using uint_lt2p [of c] by simp
  ultimately show ?thesis
    using marker_roundtrip [OF assms]
    by (simp add: ledoutput_from_led_command_def pack_wrgb_def struct_pack_BBBB_def)
qed

lemma check_ledoutput_range_valid:
  assumes "0 \<le> w" "w \<le> 31" "0 \<le> r" "r \<le> 255" "0 \<le> g" "g \<le> 255" "0 \<le> b" "b \<le> 255"
  shows "check_ledoutput_range (LedOutput (PyInt w) (PyInt r) (PyInt g) (PyInt b)) = Inr ()"
  using assms by (simp add: check_ledoutput_range_def)

lemma check_ledoutput_range_Inr:
  assumes "check_ledoutput_range v = Inr u"
  shows "\<exists>w r g b. v = LedOutput (PyInt w) (PyInt r) (PyInt g) (PyInt b)
            \<and> 0 \<le> w \<and> w \<le> 31 \<and> 0 \<le> r \<and> r \<le> 255 \<and> 0 \<le> g \<and> g \<le> 255 \<and> 0 \<le> b \<and> b \<le> 255"
proof -
  obtain x1 x2 x3 x4 where v: "v = LedOutput x1 x2 x3 x4" by (cases v)
  from assms show ?thesis
    unfolding v check_ledoutput_range_def
    by (cases x1; cases x2; cases x3; cases x4) (simp_all split: if_splits)
qed

text \<open>
  C3: packing and unpacking are mutually inverse. For every valid LedOutput (brightness
  within 0..31, each channel within 0..255) packing succeeds and unpacking the packed
  word gives the value back; for every 4-byte word whose first byte has its top three
  bits set, unpacking succeeds and packing the result gives the word back.
\<close>

theorem pack_unpack_inverse:
  "(0 \<le> w \<and> w \<le> 31 \<and> 0 \<le> r \<and> r \<le> 255 \<and> 0 \<le> g \<and> g \<le> 255 \<and> 0 \<le> b \<and> b \<le> 255 \<longrightarrow>
      (\<exists>bs. pack_wrgb (LedOutput (PyInt w) (PyInt r) (PyInt g) (PyInt b)) = Inr bs
            \<and> ledoutput_from_led_command bs
                = Inr (LedOutput (PyInt w) (PyInt r) (PyInt g) (PyInt b))))
   \<and> (c0 AND 0xe0 = 0xe0 \<longrightarrow>
      (\<exists>v. ledoutput_from_led_command [c0, c1, c2, c3] = Inr v
           \<and> pack_wrgb v = Inr [c0, c1, c2, c3]))"
proof (intro conjI impI)
  assume "0 \<le> w \<and> w \<le> 31 \<and> 0 \<le> r \<and> r \<le> 255 \<and> 0 \<le> g \<and> g \<le> 255 \<and> 0 \<le> b \<and> b \<le> 255"
  then show "\<exists>bs. pack_wrgb (LedOutput (PyInt w) (PyInt r) (PyInt g) (PyInt b)) = Inr bs
            \<and> ledoutput_from_led_command bs
                = Inr (LedOutput (PyInt w) (PyInt r) (PyInt g) (PyInt b))"
    by (simp add: pack_wrgb_valid unpack_packed)
next
  assume "c0 AND 0xe0 = 0xe0"
  then show "\<exists>v. ledoutput_from_led_command [c0, c1, c2, c3] = Inr v
           \<and> pack_wrgb v = Inr [c0, c1, c2, c3]"
    by (rule pack_unpacked)
qed

text \<open>C3 at the values of the unit tests: LedOutput(11, 125, 65, 200) and the word
  \<open>ef 45 ab de\<close>.\<close>

theorem pack_unpack_inverse_witness:
  "(\<exists>bs. pack_wrgb (LedOutput (PyInt 11) (PyInt 125) (PyInt 65) (PyInt 200)) = Inr bs
         \<and> ledoutput_from_led_command bs
             = Inr (LedOutput (PyInt 11) (PyInt 125) (PyInt 65) (PyInt 200)))
   \<and> (\<exists>v. ledoutput_from_led_command [0xef, 0x45, 0xab, 0xde] = Inr v
         \<and> pack_wrgb v = Inr [0xef, 0x45, 0xab, 0xde])"
  using pack_unpack_inverse [of 11 125 65 200 "0xef" "0x45" "0xab" "0xde"] by simp

section \<open>Slices of the framebuffer\<close>

lemma slice_bound_in_range: "0 \<le> k \<Longrightarrow> k \<le> int n \<Longrightarrow> slice_bound n k = nat k"
  by (simp add: slice_bound_def)

lemma led_slice_bounds:
  assumes "0 \<le> i" "8 + 4 * nat i \<le> length xs"
  shows "slice_bound (length xs) (4 + i * 4) = 4 + 4 * nat i"
    and "slice_bound (length xs) (8 + i * 4) = 8 + 4 * nat i"
  using assms by (simp_all add: slice_bound_in_range nat_add_distrib nat_mult_distrib)

lemma led_slice:
  assumes "0 \<le> i" "8 + 4 * nat i \<le> length xs"
  shows "py_slice xs (4 + i * 4) (8 + i * 4) = take 4 (drop (4 + 4 * nat i) xs)"
  using assms by (simp add: py_slice_def led_slice_bounds)

lemma led_slice_length:
  assumes "0 \<le> i" "8 + 4 * nat i \<le> length xs"
  shows "length (py_slice xs (4 + i * 4) (8 + i * 4)) = 4"
  using assms by (simp add: led_slice)

lemma led_assign:
  assumes "0 \<le> i" "8 + 4 * nat i \<le> length xs" "length src = 4"
  shows "memoryview_assign xs (4 + i * 4) (8 + i * 4) src
         = Inr (take (4 + 4 * nat i) xs @ src @ drop (8 + 4 * nat i) xs)"
  using assms by (simp add: memoryview_assign_def led_slice_bounds add.commute)

lemma led_slice_assigned:
  assumes "0 \<le> i" "8 + 4 * nat i \<le> length xs" "length src = 4"
  shows "py_slice (take (4 + 4 * nat i) xs @ src @ drop (8 + 4 * nat i) xs) (4 + i * 4) (8 + i * 4) = src"
proof -
  let ?ys = "take (4 + 4 * nat i) xs @ src @ drop (8 + 4 * nat i) xs"
  have len: "length ?ys = length xs"
    using assms by simp
  have "py_slice ?ys (4 + i * 4) (8 + i * 4) = take 4 (drop (4 + 4 * nat i) ?ys)"
    using assms len by (simp only: led_slice)
  also have "\<dots> = src"
    using assms by simp
  finally show ?thesis .
qed

lemma memoryview_assign_length:
  "memoryview_assign xs start stop src = Inr ys \<Longrightarrow> length ys = length xs"
  by (auto simp: memoryview_assign_def Let_def slice_bound_def split: if_splits)

lemma inv_room:
  assumes "framebuffer_inv s" "0 \<le> i" "i < leds s"
  shows "8 + 4 * nat i \<le> length (data s)"
proof -
  from assms have "nat i < nat (leds s)" by simp
  moreover from assms have "length (data s) \<ge> 4 + 4 * nat (leds s)"
    by (simp add: framebuffer_inv_def)
  ultimately show ?thesis by linarith
qed

section \<open>Indexed get and set\<close>

lemma set_unchecked_valid:
  assumes "framebuffer_inv s" "0 \<le> i" "i < leds s"
    and "0 \<le> w" "w \<le> 255" "0 \<le> r" "r \<le> 255" "0 \<le> g" "g \<le> 255" "0 \<le> b" "b \<le> 255"
    and "p = [word_of_int (w OR 0xe0), word_of_int b, word_of_int g, word_of_int r]"
  shows "set_unchecked s i (LedOutput (PyInt w) (PyInt r) (PyInt g) (PyInt b))
         = (Inr (),
            if p \<noteq> take 4 (drop (4 + 4 * nat i) (data s))
            then s\<lparr>wrgb_buffer := p,
                   data := take (4 + 4 * nat i) (data s) @ p @ drop (8 + 4 * nat i) (data s),
                   data_modified := True\<rparr>
            else s\<lparr>wrgb_buffer := p\<rparr>)"
proof -
  have room: "8 + 4 * nat i \<le> length (data s)"
    using assms(1-3) by (rule inv_room)
  have len: "length (wrgb_buffer s) = 4"
    using assms(1) by (simp add: framebuffer_inv_def)
  have direct: "pack_wrgb_direct (wrgb_buffer s) (LedOutput (PyInt w) (PyInt r) (PyInt g) (PyInt b))
                = (Inr (), p)"
    unfolding assms(12) using len assms(4-11) by (rule pack_wrgb_direct_valid)
  have p4: "length p = 4"
    by (simp add: assms(12))
  show ?thesis
    using assms(2) room p4
    by (simp add: set_unchecked_def direct led_slice led_assign)
qed

lemma setitem_valid:
  assumes "0 \<le> i" "i < leds s"
    and "0 \<le> w" "w \<le> 31" "0 \<le> r" "r \<le> 255" "0 \<le> g" "g \<le> 255" "0 \<le> b" "b \<le> 255"
  shows "setitem s i (LedOutput (PyInt w) (PyInt r) (PyInt g) (PyInt b))
         = set_unchecked s i (LedOutput (PyInt w) (PyInt r) (PyInt g) (PyInt b))"
  using assms by (simp add: setitem_def check_ledoutput_range_valid)

lemma getitem_in_range:
  assumes "8 + 4 * nat i \<le> length (data s)" "0 \<le> i" "i < leds s"
  shows "getitem s i = ledoutput_from_led_command (take 4 (drop (4 + 4 * nat i) (data s)))"
  using assms by (simp add: getitem_def led_slice)

lemma getitem_out_of_range: "i < 0 \<or> leds s \<le> i \<Longrightarrow> getitem s i = Inl out_of_range"
  by (auto simp: getitem_def)

lemma setitem_out_of_range:
  assumes "i < 0 \<or> leds s \<le> i"
    and "0 \<le> w" "w \<le> 31" "0 \<le> r" "r \<le> 255" "0 \<le> g" "g \<le> 255" "0 \<le> b" "b \<le> 255"
  shows "setitem s i (LedOutput (PyInt w) (PyInt r) (PyInt g) (PyInt b)) = (Inl out_of_range, s)"
  using assms by (auto simp: setitem_def check_ledoutput_range_valid)

lemma take4_drop:
  assumes "k + 4 \<le> length xs"
  shows "take 4 (drop k xs) = [xs ! k, xs ! (k + 1), xs ! (k + 2), xs ! (k + 3)]"
proof -
  have "length (take 4 (drop k xs)) = 4"
    using assms by simp
  then obtain a0 a1 a2 a3 where t: "take 4 (drop k xs) = [a0, a1, a2, a3]"
    using length4 by blast
  have "(take 4 (drop k xs)) ! j = xs ! (k + j)" if "j < 4" for j
    using that assms by simp
  from this [of 0] this [of 1] this [of 2] this [of 3] show ?thesis
    by (simp add: t)
qed

lemma getitem_ok:
  assumes "framebuffer_inv s" "0 \<le> i" "i < leds s"
  shows "\<exists>v. getitem s i = Inr v"
proof -
  have room: "8 + 4 * nat i \<le> length (data s)"
    using assms by (rule inv_room)
  then show ?thesis
    using assms(2,3) by (simp add: getitem_in_range ledoutput_from_led_command_def)
qed

lemma framebuffer_inv_iff:
  "framebuffer_inv s \<longleftrightarrow>
     0 \<le> leds s
     \<and> length (data s) = 4 + 4 * nat (leds s) + length (generate_end_sequence (leds s))
     \<and> length (wrgb_buffer s) = 4
     \<and> (\<forall>j < nat (leds s). data s ! (4 + 4 * j) AND 0xe0 = 0xe0)"
  by (auto simp: framebuffer_inv_def list_all_iff)

lemma get_after_set_unchecked:
  assumes "framebuffer_inv s" "0 \<le> i" "i < leds s"
    and "0 \<le> w" "w \<le> 31" "0 \<le> r" "r \<le> 255" "0 \<le> g" "g \<le> 255" "0 \<le> b" "b \<le> 255"
  shows "getitem (snd (set_unchecked s i (LedOutput (PyInt w) (PyInt r) (PyInt g) (PyInt b)))) i
         = Inr (LedOutput (PyInt w) (PyInt r) (PyInt g) (PyInt b))"
proof -
  define p :: "byte list" where
    "p = [word_of_int (w OR 0xe0), word_of_int b, word_of_int g, word_of_int r]"
  have room: "8 + 4 * nat i \<le> length (data s)"
    using assms(1-3) by (rule inv_room)
  have unp: "ledoutput_from_led_command p = Inr (LedOutput (PyInt w) (PyInt r) (PyInt g) (PyInt b))"
    unfolding p_def using assms(4-) by (rule unpack_packed)
  have su: "set_unchecked s i (LedOutput (PyInt w) (PyInt r) (PyInt g) (PyInt b))
         = (Inr (),
            if p \<noteq> take 4 (drop (4 + 4 * nat i) (data s))
            then s\<lparr>wrgb_buffer := p,
                   data := take (4 + 4 * nat i) (data s) @ p @ drop (8 + 4 * nat i) (data s),
                   data_modified := True\<rparr>
            else s\<lparr>wrgb_buffer := p\<rparr>)"
    by (rule set_unchecked_valid) (use assms p_def in simp_all)
  show ?thesis
  proof (cases "p = take 4 (drop (4 + 4 * nat i) (data s))")
    case True
    then show ?thesis
      using room assms(2,3) unp by (simp add: su getitem_in_range)
  next
    case False
    have "length p = 4" by (simp add: p_def)
    then show ?thesis
      using False room assms(2,3) unp by (simp add: su getitem_in_range)
  qed
qed

lemma stored_word_of_getitem:
  assumes "framebuffer_inv s" "0 \<le> i" "i < leds s"
    and "0 \<le> w" "w \<le> 31" "0 \<le> r" "r \<le> 255" "0 \<le> g" "g \<le> 255" "0 \<le> b" "b \<le> 255"
    and "getitem s i = Inr (LedOutput (PyInt w) (PyInt r) (PyInt g) (PyInt b))"
  shows "take 4 (drop (4 + 4 * nat i) (data s))
         = [word_of_int (w OR 0xe0), word_of_int b, word_of_int g, word_of_int r]"
proof -
  let ?k = "4 + 4 * nat i"
  have room: "8 + 4 * nat i \<le> length (data s)"
    using assms(1-3) by (rule inv_room)
  then have word: "take 4 (drop ?k (data s))
                   = [data s ! ?k, data s ! (?k + 1), data s ! (?k + 2), data s ! (?k + 3)]"
    by (intro take4_drop) simp
  have "nat i < nat (leds s)"
    using assms(2,3) by simp
  then have marker: "data s ! ?k AND 0xe0 = 0xe0"
    using assms(1) by (simp add: framebuffer_inv_iff)
  from pack_unpacked [OF marker] obtain v
    where v: "ledoutput_from_led_command (take 4 (drop ?k (data s))) = Inr v"
      and pv: "pack_wrgb v = Inr (take 4 (drop ?k (data s)))"
    unfolding word by blast
  have "getitem s i = Inr v"
    using room assms(2,3) v by (simp add: getitem_in_range)
  with assms(12) have "v = LedOutput (PyInt w) (PyInt r) (PyInt g) (PyInt b)"
    by simp
  with pv show ?thesis
    using assms(4-11) by (simp add: pack_wrgb_valid)
qed

lemma getitem_of_stored_word:
  assumes "framebuffer_inv s" "0 \<le> i" "i < leds s"
    and "0 \<le> w" "w \<le> 31" "0 \<le> r" "r \<le> 255" "0 \<le> g" "g \<le> 255" "0 \<le> b" "b \<le> 255"
    and "take 4 (drop (4 + 4 * nat i) (data s))
         = [word_of_int (w OR 0xe0), word_of_int b, word_of_int g, word_of_int r]"
  shows "getitem s i = Inr (LedOutput (PyInt w) (PyInt r) (PyInt g) (PyInt b))"
proof -
  have room: "8 + 4 * nat i \<le> length (data s)"
    using assms(1-3) by (rule inv_room)
  show ?thesis
    using room assms(2,3) assms(4-11)
    by (simp add: getitem_in_range assms(12) unpack_packed)
qed

section \<open>Commit\<close>

lemma bit_value: "uint (drop_bit k byte AND 1) = of_bool (bit byte k)" for byte :: byte
proof -
  have "drop_bit k byte AND 1 = of_bool (bit byte k)"
    by (simp add: and_one_eq mod_2_eq_odd bit_iff_odd_drop_bit)
  then show ?thesis
    by (simp add: of_bool_def)
qed

lemma commit_bits_record:
  "commit_bits record_line_state byte ks w = (Inr (), w @ bits_wave byte ks)"
  by (induction ks arbitrary: w) (simp_all add: bits_wave_def record_line_state_def bit_value)

lemma commit_bytes_record:
  "commit_bytes record_line_state bs w = (Inr (), w @ waveform bs)"
  by (induction bs arbitrary: w)
     (simp_all add: waveform_def commit_byte_def byte_wave_def commit_bits_record
        del: commit_bits.simps)

lemma commit_record:
  "data_modified s \<Longrightarrow>
   commit record_line_state (w, s) = (Inr (), w @ waveform (data s), s\<lparr>data_modified := False\<rparr>)"
  by (simp add: commit_def commit_bytes_record)

lemma commit_clean: "\<not> data_modified s \<Longrightarrow> commit sv (h, s) = (Inr (), h, s)"
  by (simp add: commit_def)

lemma commit_Inl:
  "commit sv (h, s) = (Inl e, h', s') \<Longrightarrow> s' = s \<and> data_modified s"
  by (auto simp: commit_def split: if_splits prod.splits sum.splits)

lemma commit_Inr:
  "commit sv (h, s) = (Inr u, h', s') \<Longrightarrow> s' = s\<lparr>data_modified := False\<rparr>"
  by (auto simp: commit_def split: if_splits prod.splits sum.splits)

lemma commit_state:
  "snd (snd (commit sv (h, s))) = s\<lparr>data_modified := data_modified (snd (snd (commit sv (h, s))))\<rparr>"
  by (auto simp: commit_def split: if_splits prod.splits sum.splits)

lemma waveform_append: "waveform (xs @ ys) = waveform xs @ waveform ys"
  by (simp add: waveform_def)

lemma length_bits_wave: "length (bits_wave byte ks) = 2 * length ks"
  by (induction ks) (simp_all add: bits_wave_def)

lemma length_byte_wave: "length (byte_wave byte) = 16"
  by (simp add: byte_wave_def length_bits_wave)

lemma length_waveform: "length (waveform bs) = 16 * length bs"
  by (induction bs) (simp_all add: waveform_def length_byte_wave)

lemma failing_lines_simps:
  "failing_lines v (0, w) = (Inl OSError, (0, w))"
  "failing_lines v (Suc m, w) = (Inr (), (m, w @ [v]))"
  by (simp_all add: failing_lines_def)

lemma commit_bits_failing:
  "commit_bits failing_lines byte ks (k, w) =
     (if k < 2 * length ks then (Inl OSError, (0, w @ take k (bits_wave byte ks)))
      else (Inr (), (k - 2 * length ks, w @ bits_wave byte ks)))"
proof (induction ks arbitrary: k w)
  case Nil
  then show ?case by (simp add: bits_wave_def)
next
  case (Cons a ks)
  consider "k = 0" | "k = 1" | "2 \<le> k" by linarith
  then show ?case
  proof cases
    case 1
    then show ?thesis by (simp add: failing_lines_simps)
  next
    case 2
    then show ?thesis by (simp add: failing_lines_simps bits_wave_def bit_value)
  next
    case 3
    then obtain m where k: "k = Suc (Suc m)"
      by (metis Suc_le_D numeral_2_eq_2 Suc_le_mono)
    have bw: "bits_wave byte (a # ks)
              = (0, of_bool (bit byte a)) # (1, of_bool (bit byte a)) # bits_wave byte ks"
      by (simp add: bits_wave_def)
    show ?thesis
      by (simp add: k failing_lines_simps bit_value Cons.IH bw)
  qed
qed

lemma commit_bytes_failing:
  "commit_bytes failing_lines bs (k, w) =
     (if k < 16 * length bs then (Inl OSError, (0, w @ take k (waveform bs)))
      else (Inr (), (k - 16 * length bs, w @ waveform bs)))"
proof (induction bs arbitrary: k w)
  case Nil
  then show ?case by (simp add: waveform_def)
next
  case (Cons a bs)
  have wf: "waveform (a # bs) = byte_wave a @ waveform bs"
    by (simp add: waveform_def)
  have cb: "commit_byte failing_lines a (k, w) =
     (if k < 16 then (Inl OSError, (0, w @ take k (byte_wave a)))
      else (Inr (), (k - 16, w @ byte_wave a)))"
    by (simp add: commit_byte_def byte_wave_def commit_bits_failing del: commit_bits.simps)
  show ?case
    by (auto simp add: cb Cons.IH wf length_byte_wave)
qed

lemma concat_nth_uniform:
  assumes "\<forall>xs \<in> set xss. length xs = n" "j < length xss" "m < n"
  shows "concat xss ! (n * j + m) = xss ! j ! m"
  using assms
proof (induction xss arbitrary: j)
  case Nil
  then show ?case by simp
next
  case (Cons xs xss)
  have len: "length xs = n" using Cons.prems(1) by simp
  show ?case
  proof (cases j)
    case 0
    then show ?thesis using Cons.prems(3) len by (simp add: nth_append)
  next
    case (Suc j')
    have "n * j + m = length xs + (n * j' + m)"
      by (simp add: Suc len)
    then have "concat (xs # xss) ! (n * j + m) = concat xss ! (n * j' + m)"
      by (simp only: concat.simps nth_append_length_plus)
    also have "\<dots> = xss ! j' ! m"
      using Cons.prems Suc by (intro Cons.IH) simp_all
    finally show ?thesis by (simp add: Suc)
  qed
qed

lemma waveform_nth:
  assumes "j < length bs" "m < 16"
  shows "waveform bs ! (16 * j + m) = byte_wave (bs ! j) ! m"
proof -
  have "concat (map byte_wave bs) ! (16 * j + m) = map byte_wave bs ! j ! m"
    using assms by (intro concat_nth_uniform) (simp_all add: length_byte_wave)
  then show ?thesis
    using assms(1) by (simp add: waveform_def)
qed

lemma less_8_cases: "k < 8 \<Longrightarrow> k = 0 \<or> k = 1 \<or> k = 2 \<or> k = 3 \<or> k = 4 \<or> k = 5 \<or> k = 6 \<or> k = (7::nat)"
  by (simp add: numeral_eq_Suc less_Suc_eq) 

lemma byte_wave_eq:
  "byte_wave byte =
     [(0, of_bool (bit byte 7)), (1, of_bool (bit byte 7)),
      (0, of_bool (bit byte 6)), (1, of_bool (bit byte 6)),
      (0, of_bool (bit byte 5)), (1, of_bool (bit byte 5)),
      (0, of_bool (bit byte 4)), (1, of_bool (bit byte 4)),
      (0, of_bool (bit byte 3)), (1, of_bool (bit byte 3)),
      (0, of_bool (bit byte 2)), (1, of_bool (bit byte 2)),
      (0, of_bool (bit byte 1)), (1, of_bool (bit byte 1)),
      (0, of_bool (bit byte 0)), (1, of_bool (bit byte 0))]"
  by (simp add: byte_wave_def bits_wave_def)

lemma byte_wave_nth:
  assumes "k < 8"
  shows "byte_wave byte ! (2 * k) = (0, of_bool (bit byte (7 - k)))"
    and "byte_wave byte ! (2 * k + 1) = (1, of_bool (bit byte (7 - k)))"
  using less_8_cases [OF assms] by (elim disjE; simp only: byte_wave_eq; simp)+

lemma waveform_bit:
  assumes "j < length bs" "k < 8"
  shows "waveform bs ! (16 * j + 2 * k) = (0, of_bool (bit (bs ! j) (7 - k)))"
    and "waveform bs ! (16 * j + 2 * k + 1) = (1, of_bool (bit (bs ! j) (7 - k)))"
proof -
  have m: "2 * k < 16" "2 * k + 1 < 16"
    using assms(2) by simp_all
  show "waveform bs ! (16 * j + 2 * k) = (0, of_bool (bit (bs ! j) (7 - k)))"
    by (simp only: waveform_nth [OF assms(1) m(1)] byte_wave_nth(1) [OF assms(2)])
  have "waveform bs ! (16 * j + (2 * k + 1)) = byte_wave (bs ! j) ! (2 * k + 1)"
    by (rule waveform_nth [OF assms(1) m(2)])
  then show "waveform bs ! (16 * j + 2 * k + 1) = (1, of_bool (bit (bs ! j) (7 - k)))"
    by (simp only: byte_wave_nth(2) [OF assms(2)] add.assoc)
qed

lemma byte_wave_0x88:
  "byte_wave 0x88 = [(0, 1), (1, 1), (0, 0), (1, 0), (0, 0), (1, 0), (0, 0), (1, 0),
                     (0, 1), (1, 1), (0, 0), (1, 0), (0, 0), (1, 0), (0, 0), (1, 0)]"
  by (simp add: byte_wave_def bits_wave_def)

lemma commit_byte_record: "commit_byte record_line_state byte w = (Inr (), w @ byte_wave byte)"
  by (simp add: commit_byte_def byte_wave_def commit_bits_record del: commit_bits.simps)

section \<open>Construction and the invariant\<close>

lemma pack_wrgb_off:
  "pack_wrgb (LedOutput (PyInt 0) (PyInt 0) (PyInt 0) (PyInt 0)) = Inr [0xe0, 0, 0, 0]"
  by (simp add: pack_wrgb_def struct_pack_BBBB_def)

lemma init_no_reset:
  assumes "0 \<le> n"
  shows "init sv h n False
         = (Inr \<lparr>leds = n, data_modified = True,
                 data = APA102_START @ concat (replicate (nat n) [0xe0, 0, 0, 0])
                        @ generate_end_sequence n,
                 wrgb_buffer = [0, 0, 0, 0]\<rparr>, h)"
  using assms by (simp add: init_def pack_wrgb_off numeral_eq_Suc)

lemma init_Inr:
  assumes "init sv h n reset = (Inr s, h')"
  shows "0 \<le> n \<and> leds s = n \<and> wrgb_buffer s = [0, 0, 0, 0]
         \<and> data s = APA102_START @ concat (replicate (nat n) [0xe0, 0, 0, 0])
                     @ generate_end_sequence n
         \<and> data_modified s = (\<not> reset)"
proof (cases reset)
  case False
  with assms show ?thesis
    by (auto simp: init_def pack_wrgb_off numeral_eq_Suc split: if_splits)
next
  case True
  let ?s0 = "\<lparr>leds = n, data_modified = True,
                 data = APA102_START @ concat (replicate (nat n) [0xe0, 0, 0, 0])
                        @ generate_end_sequence n,
                 wrgb_buffer = replicate 4 0\<rparr>"
  from assms True have n: "0 \<le> n"
    by (auto simp: init_def pack_wrgb_off split: if_splits)
  obtain res h1 s1 where c: "commit sv (h, ?s0) = (res, h1, s1)"
    by (cases "commit sv (h, ?s0)") auto
  with assms True n obtain u where res: "res = Inr u" and s: "s = s1"
    by (cases res) (auto simp: init_def pack_wrgb_off Let_def)
  have "commit sv (h, ?s0) = (Inr u, h1, s1)"
    using c res by simp
  then have "s1 = ?s0\<lparr>data_modified := False\<rparr>"
    by (rule commit_Inr)
  with s True n show ?thesis
    by (simp add: numeral_eq_Suc)
qed

lemma length_concat_replicate4:
  "length (concat (replicate n [a, b, c, d])) = 4 * n"
  by (induction n) simp_all

lemma concat_replicate4_nth:
  "j < n \<Longrightarrow> concat (replicate n [a, b, c, d]) ! (4 * j) = a"
  using concat_nth_uniform [of "replicate n [a, b, c, d]" 4 j 0] by simp

lemma init_data_length:
  "length (APA102_START @ concat (replicate (nat n) [a, b, c, d]) @ generate_end_sequence n)
   = 4 + 4 * nat n + length (generate_end_sequence n)"
  by (simp add: APA102_START_def length_concat_replicate4)

lemma init_data_marker:
  assumes "j < nat n"
  shows "(APA102_START @ concat (replicate (nat n) [a, b, c, d]) @ generate_end_sequence n)
           ! (4 + 4 * j) = a"
proof -
  have "4 * j < length (concat (replicate (nat n) [a, b, c, d]))"
    using assms by (simp add: length_concat_replicate4)
  then show ?thesis
    using assms by (simp add: APA102_START_def nth_append concat_replicate4_nth)
qed

lemma init_inv:
  assumes "init sv h n reset = (Inr s, h')"
  shows "framebuffer_inv s"
proof -
  from init_Inr [OF assms]
  have n: "0 \<le> n" and l: "leds s = n" and b: "wrgb_buffer s = [0, 0, 0, 0]"
    and d: "data s = APA102_START @ concat (replicate (nat n) [0xe0, 0, 0, 0])
                     @ generate_end_sequence n"
    by simp_all
  have "length (data s) = 4 + 4 * nat n + length (generate_end_sequence n)"
    unfolding d by (rule init_data_length)
  moreover have "data s ! (4 + 4 * j) AND 0xe0 = 0xe0" if "j < nat n" for j
    unfolding d init_data_marker [OF that] by simp
  ultimately show ?thesis
    using n by (simp add: framebuffer_inv_iff l b)
qed

lemma framebuffer_inv_flag: "framebuffer_inv (s\<lparr>data_modified := x\<rparr>) = framebuffer_inv s"
  by (simp add: framebuffer_inv_def)

lemma commit_cases:
  obtains e h' where "commit sv (h, s) = (Inl e, h', s)" "data_modified s"
  | h' where "commit sv (h, s) = (Inr (), h', s\<lparr>data_modified := False\<rparr>)"
proof -
  obtain res h' s' where c: "commit sv (h, s) = (res, h', s')"
    by (cases "commit sv (h, s)") auto
  show thesis
  proof (cases res)
    case (Inl e)
    with c commit_Inl [of sv h s e h' s'] that(1) show ?thesis by simp
  next
    case (Inr u)
    with c commit_Inr [of sv h s u h' s'] that(2) show ?thesis by simp
  qed
qed

lemma commit_inv:
  "framebuffer_inv s \<Longrightarrow> framebuffer_inv (snd (snd (commit sv (h, s))))"
  by (rule commit_cases [of sv h s]) (simp_all add: framebuffer_inv_flag)

lemma bytearray_setitem_length: "length (snd (bytearray_setitem d k v)) = length d"
  by (cases v) (simp_all add: bytearray_setitem_def)

lemma set_unchecked_length: "length (data (snd (set_unchecked s i v))) = length (data s)"
  by (auto simp: set_unchecked_def memoryview_assign_length split: prod.splits sum.splits)

lemma setitem_length: "length (data (snd (setitem s i v))) = length (data s)"
  by (simp add: setitem_def set_unchecked_length split: sum.splits)

lemma commit_data: "data (snd (snd (commit sv (h, s)))) = data s"
  by (rule commit_cases [of sv h s]) simp_all

lemma nth_led_assign:
  assumes "lo + 4 \<le> length xs" "length p = 4" "m < length xs"
  shows "(take lo xs @ p @ drop (lo + 4) xs) ! m
         = (if lo \<le> m \<and> m < lo + 4 then p ! (m - lo) else xs ! m)"
proof -
  consider "m < lo" | "lo \<le> m" "m < lo + 4" | "lo + 4 \<le> m" by linarith
  then show ?thesis
  proof cases
    case 1
    then show ?thesis using assms by (simp add: nth_append)
  next
    case 2
    then have ml: "m - lo < 4" "\<not> m < lo" by linarith+
    have "(take lo xs @ p @ drop (lo + 4) xs) ! m = (p @ drop (lo + 4) xs) ! (m - lo)"
      using ml assms by (simp add: nth_append)
    also have "\<dots> = p ! (m - lo)"
      using ml assms by (simp add: nth_append)
    finally show ?thesis using 2 by simp
  next
    case 3
    then have ml: "\<not> m < lo" "\<not> m - lo < 4" "m - lo - 4 = m - (lo + 4)" by linarith+
    have "(take lo xs @ p @ drop (lo + 4) xs) ! m = drop (lo + 4) xs ! (m - (lo + 4))"
      using ml assms by (simp add: nth_append)
    also have "\<dots> = xs ! m"
      using 3 assms by simp
    finally show ?thesis using 3 by simp
  qed
qed

lemma set_unchecked_inv:
  assumes "framebuffer_inv s" "0 \<le> i" "i < leds s"
    and "0 \<le> w" "w \<le> 255" "0 \<le> r" "r \<le> 255" "0 \<le> g" "g \<le> 255" "0 \<le> b" "b \<le> 255"
  shows "framebuffer_inv (snd (set_unchecked s i (LedOutput (PyInt w) (PyInt r) (PyInt g) (PyInt b))))"
proof -
  define p :: "byte list" where
    "p = [word_of_int (w OR 0xe0), word_of_int b, word_of_int g, word_of_int r]"
  define lo where "lo = 4 + 4 * nat i"
  have p4: "length p = 4" by (simp add: p_def)
  have room: "lo + 4 \<le> length (data s)"
    using inv_room [OF assms(1-3)] by (simp add: lo_def)
  have su: "set_unchecked s i (LedOutput (PyInt w) (PyInt r) (PyInt g) (PyInt b))
         = (Inr (),
            if p \<noteq> take 4 (drop (4 + 4 * nat i) (data s))
            then s\<lparr>wrgb_buffer := p,
                   data := take (4 + 4 * nat i) (data s) @ p @ drop (8 + 4 * nat i) (data s),
                   data_modified := True\<rparr>
            else s\<lparr>wrgb_buffer := p\<rparr>)"
    by (rule set_unchecked_valid) (use assms p_def in simp_all)
  have marker: "(take lo (data s) @ p @ drop (lo + 4) (data s)) ! (4 + 4 * j) AND 0xe0 = 0xe0"
    if j: "j < nat (leds s)" for j
  proof -
    have m: "4 + 4 * j < length (data s)"
      using j assms(1) by (simp add: framebuffer_inv_iff)
    have old: "data s ! (4 + 4 * j) AND 0xe0 = 0xe0"
      using j assms(1) by (simp add: framebuffer_inv_iff)
    show ?thesis
    proof (cases "j = nat i")
      case True
      then have "(take lo (data s) @ p @ drop (lo + 4) (data s)) ! (4 + 4 * j) = p ! 0"
        using nth_led_assign [OF room p4 m] by (simp add: lo_def)
      then show ?thesis
        using marker_set [OF assms(4,5)] by (simp add: p_def)
    next
      case False
      then have neg: "\<not> (lo \<le> 4 + 4 * j \<and> 4 + 4 * j < lo + 4)"
        unfolding lo_def by linarith
      have "(take lo (data s) @ p @ drop (lo + 4) (data s)) ! (4 + 4 * j) = data s ! (4 + 4 * j)"
        unfolding nth_led_assign [OF room p4 m] using neg by (simp only: if_False)
      with old show ?thesis by simp
    qed
  qed
  have len: "length (take lo (data s) @ p @ drop (lo + 4) (data s)) = length (data s)"
    using room p4 by simp
  show ?thesis
  proof (cases "p = take 4 (drop (4 + 4 * nat i) (data s))")
    case True
    then show ?thesis
      using assms(1) p4 by (simp add: su framebuffer_inv_def)
  next
    case False
    have "framebuffer_inv (s\<lparr>wrgb_buffer := p,
                   data := take lo (data s) @ p @ drop (lo + 4) (data s),
                   data_modified := True\<rparr>)"
      using assms(1) p4 len marker by (simp add: framebuffer_inv_iff)
    moreover have "take lo (data s) @ p @ drop (lo + 4) (data s)
                   = take (4 + 4 * nat i) (data s) @ p @ drop (8 + 4 * nat i) (data s)"
      by (simp add: lo_def)
    ultimately show ?thesis
      using False by (simp add: su)
  qed
qed

lemma setitem_inv:
  assumes "framebuffer_inv s"
  shows "framebuffer_inv (snd (setitem s i v))"
proof (cases "check_ledoutput_range v")
  case (Inl e)
  then show ?thesis using assms by (simp add: setitem_def)
next
  case (Inr u)
  then obtain w r g b where v: "v = LedOutput (PyInt w) (PyInt r) (PyInt g) (PyInt b)"
    and rng: "0 \<le> w" "w \<le> 31" "0 \<le> r" "r \<le> 255" "0 \<le> g" "g \<le> 255" "0 \<le> b" "b \<le> 255"
    using check_ledoutput_range_Inr by blast
  show ?thesis
  proof (cases "0 \<le> i \<and> i < leds s")
    case False
    then show ?thesis using assms Inr by (simp add: setitem_def)
  next
    case True
    then have "framebuffer_inv (snd (set_unchecked s i v))"
      unfolding v using assms rng by (intro set_unchecked_inv) simp_all
    then show ?thesis using True Inr by (simp add: setitem_def)
  qed
qed

section \<open>The claims about the controller\<close>

text \<open>
  C8: for every index within \<open>[0, N)\<close> and every valid LedOutput, the indexed set
  succeeds and the indexed get then returns that LedOutput.
\<close>

theorem set_then_get:
  assumes "framebuffer_inv s" "0 \<le> i" "i < leds s"
    and "0 \<le> br" "br \<le> 31" "0 \<le> r" "r \<le> 255" "0 \<le> g" "g \<le> 255" "0 \<le> b" "b \<le> 255"
  shows "\<exists>s'. setitem s i (LedOutput (PyInt br) (PyInt r) (PyInt g) (PyInt b)) = (Inr (), s')
              \<and> getitem s' i = Inr (LedOutput (PyInt br) (PyInt r) (PyInt g) (PyInt b))"
proof -
  let ?v = "LedOutput (PyInt br) (PyInt r) (PyInt g) (PyInt b)"
  have "setitem s i ?v = set_unchecked s i ?v"
    using assms(2-) by (rule setitem_valid)
  moreover have "fst (set_unchecked s i ?v) = Inr ()"
  proof -
    have "br \<le> 255" using assms(5) by simp
    from set_unchecked_valid [OF assms(1-4) this assms(6-11) refl]
    show ?thesis by (simp only: fst_conv)
  qed
  moreover have "getitem (snd (set_unchecked s i ?v)) i = Inr ?v"
    using assms by (rule get_after_set_unchecked)
  ultimately show ?thesis
    by (cases "set_unchecked s i ?v") simp
qed

text \<open>C8 on a freshly constructed strip of 8 LEDs, at the value of the unit test.\<close>

theorem set_then_get_witness:
  "\<exists>s s'. init record_line_state [] 8 False = (Inr s, [])
      \<and> setitem s 0 (LedOutput (PyInt 1) (PyInt 4) (PyInt 5) (PyInt 6)) = (Inr (), s')
      \<and> getitem s' 0 = Inr (LedOutput (PyInt 1) (PyInt 4) (PyInt 5) (PyInt 6))"
proof -
  obtain s where s: "init record_line_state [] 8 False = (Inr s, [])"
    using init_no_reset [of 8 record_line_state "[]"] by simp
  have "framebuffer_inv s" "leds s = 8"
    using init_inv [OF s] init_Inr [OF s] by simp_all
  then have "\<exists>s'. setitem s 0 (LedOutput (PyInt 1) (PyInt 4) (PyInt 5) (PyInt 6)) = (Inr (), s')
              \<and> getitem s' 0 = Inr (LedOutput (PyInt 1) (PyInt 4) (PyInt 5) (PyInt 6))"
    by (intro set_then_get) simp_all
  with s show ?thesis by blast
qed

lemma getitem_cong: "leds s' = leds s \<Longrightarrow> data s' = data s \<Longrightarrow> getitem s' i = getitem s i"
  by (simp add: getitem_def)

text \<open>
  C10: a commit, transmitting or not, successful or not, changes nothing of the
  controller but the dirty flag: the framebuffer bytes are unchanged and every indexed
  get returns what it returned before.
\<close>

theorem commit_frame:
  "snd (snd (commit sv (h, s)))
     = s\<lparr>data_modified := data_modified (snd (snd (commit sv (h, s))))\<rparr>
   \<and> data (snd (snd (commit sv (h, s)))) = data s
   \<and> getitem (snd (snd (commit sv (h, s)))) i = getitem s i"
proof (intro conjI)
  show "snd (snd (commit sv (h, s)))
        = s\<lparr>data_modified := data_modified (snd (snd (commit sv (h, s))))\<rparr>"
    by (rule commit_state)
  show d: "data (snd (snd (commit sv (h, s)))) = data s"
    by (rule commit_data)
  have "leds (snd (snd (commit sv (h, s)))) = leds s"
    by (rule commit_cases [of sv h s]) simp_all
  then show "getitem (snd (snd (commit sv (h, s)))) i = getitem s i"
    using d by (rule getitem_cong)
qed

text \<open>
  C9: for every index below 0 or at least \<open>N\<close>, the indexed get and the indexed set
  of a valid LedOutput raise the IndexError; for every index within \<open>[0, N)\<close> both
  succeed.
\<close>

theorem index_errors:
  "(i < 0 \<or> leds s \<le> i \<longrightarrow>
      getitem s i = Inl (IndexError [Lit ''APA102'', Lit '': '', Lit ''out-of-range LED index''])
      \<and> (0 \<le> br \<and> br \<le> 31 \<and> 0 \<le> r \<and> r \<le> 255 \<and> 0 \<le> g \<and> g \<le> 255 \<and> 0 \<le> b \<and> b \<le> 255 \<longrightarrow>
           setitem s i (LedOutput (PyInt br) (PyInt r) (PyInt g) (PyInt b))
           = (Inl (IndexError [Lit ''APA102'', Lit '': '', Lit ''out-of-range LED index'']), s)))
   \<and> (framebuffer_inv s \<and> 0 \<le> i \<and> i < leds s \<longrightarrow>
      (\<exists>v. getitem s i = Inr v)
      \<and> (0 \<le> br \<and> br \<le> 31 \<and> 0 \<le> r \<and> r \<le> 255 \<and> 0 \<le> g \<and> g \<le> 255 \<and> 0 \<le> b \<and> b \<le> 255 \<longrightarrow>
           (\<exists>s'. setitem s i (LedOutput (PyInt br) (PyInt r) (PyInt g) (PyInt b)) = (Inr (), s'))))"
proof (intro conjI impI)
  assume "i < 0 \<or> leds s \<le> i"
  then show "getitem s i
             = Inl (IndexError [Lit ''APA102'', Lit '': '', Lit ''out-of-range LED index''])"
    by (simp only: getitem_out_of_range out_of_range_def)
next
  assume "i < 0 \<or> leds s \<le> i"
    and "0 \<le> br \<and> br \<le> 31 \<and> 0 \<le> r \<and> r \<le> 255 \<and> 0 \<le> g \<and> g \<le> 255 \<and> 0 \<le> b \<and> b \<le> 255"
  then have "setitem s i (LedOutput (PyInt br) (PyInt r) (PyInt g) (PyInt b)) = (Inl out_of_range, s)"
    by (intro setitem_out_of_range) simp_all
  then show "setitem s i (LedOutput (PyInt br) (PyInt r) (PyInt g) (PyInt b))
        = (Inl (IndexError [Lit ''APA102'', Lit '': '', Lit ''out-of-range LED index'']), s)"
    by (simp only: out_of_range_def)
next
  assume "framebuffer_inv s \<and> 0 \<le> i \<and> i < leds s"
  then show "\<exists>v. getitem s i = Inr v"
    by (intro getitem_ok) simp_all
next
  assume "framebuffer_inv s \<and> 0 \<le> i \<and> i < leds s"
    and "0 \<le> br \<and> br \<le> 31 \<and> 0 \<le> r \<and> r \<le> 255 \<and> 0 \<le> g \<and> g \<le> 255 \<and> 0 \<le> b \<and> b \<le> 255"
  then have inv: "framebuffer_inv s" and i: "0 \<le> i" "i < leds s"
    and rng: "0 \<le> br" "br \<le> 255" "0 \<le> r" "r \<le> 255" "0 \<le> g" "g \<le> 255" "0 \<le> b" "b \<le> 255"
    and br: "br \<le> 31"
    by simp_all
  have "setitem s i (LedOutput (PyInt br) (PyInt r) (PyInt g) (PyInt b))
        = set_unchecked s i (LedOutput (PyInt br) (PyInt r) (PyInt g) (PyInt b))"
    using i rng(1) br rng(3-) by (rule setitem_valid)
  also from set_unchecked_valid [OF inv i rng refl]
  have "fst (set_unchecked s i (LedOutput (PyInt br) (PyInt r) (PyInt g) (PyInt b))) = Inr ()"
    by (simp only: fst_conv)
  finally show "\<exists>s'. setitem s i (LedOutput (PyInt br) (PyInt r) (PyInt g) (PyInt b)) = (Inr (), s')"
    by (metis prod.collapse)
qed

text \<open>C9 on a strip of 8 LEDs: indices -1 and 8 fail, 0 and 7 succeed.\<close>

theorem index_errors_witness:
  "\<exists>s. init record_line_state [] 8 False = (Inr s, [])
      \<and> getitem s (- 1) = Inl (IndexError [Lit ''APA102'', Lit '': '', Lit ''out-of-range LED index''])
      \<and> getitem s 8 = Inl (IndexError [Lit ''APA102'', Lit '': '', Lit ''out-of-range LED index''])
      \<and> setitem s (- 1) (LedOutput (PyInt 1) (PyInt 4) (PyInt 5) (PyInt 6))
          = (Inl (IndexError [Lit ''APA102'', Lit '': '', Lit ''out-of-range LED index'']), s)
      \<and> setitem s 8 (LedOutput (PyInt 1) (PyInt 4) (PyInt 5) (PyInt 6))
          = (Inl (IndexError [Lit ''APA102'', Lit '': '', Lit ''out-of-range LED index'']), s)
      \<and> (\<exists>v. getitem s 0 = Inr v) \<and> (\<exists>v. getitem s 7 = Inr v)
      \<and> (\<exists>s'. setitem s 0 (LedOutput (PyInt 1) (PyInt 4) (PyInt 5) (PyInt 6)) = (Inr (), s'))
      \<and> (\<exists>s'. setitem s 7 (LedOutput (PyInt 1) (PyInt 4) (PyInt 5) (PyInt 6)) = (Inr (), s'))"
proof -
  obtain s where s: "init record_line_state [] 8 False = (Inr s, [])"
    using init_no_reset [of 8 record_line_state "[]"] by simp
  have inv: "framebuffer_inv s" and l: "leds s = 8"
    using init_inv [OF s] init_Inr [OF s] by simp_all
  show ?thesis
    using s inv l
      index_errors [of "- 1" s 1 4 5 6] index_errors [of 8 s 1 4 5 6]
      index_errors [of 0 s 1 4 5 6] index_errors [of 7 s 1 4 5 6]
    by (intro exI [of _ s]) simp
qed

lemma commit_length: "length (data (snd (snd (commit sv (h, s))))) = length (data s)"
  by (simp only: commit_data)

text \<open>
  C7: for every non-negative \<open>n\<close>, construction succeeds (when no reset is requested;
  with a reset it succeeds unless the commit fails) and yields the framebuffer of four
  zero bytes, \<open>n\<close> copies of the packed LedOutput(0, 0, 0, 0) and the end frame for
  \<open>n\<close>, of length \<open>4 + 4n + K\<close> with \<open>K = ceil(max(n - 1, 0) / 16)\<close>; the indexed set,
  the unchecked set and commit keep that length, whatever their arguments.
\<close>

theorem init_framebuffer:
  "(0 \<le> n \<longrightarrow>
      (\<exists>s0 off. pack_wrgb (LedOutput (PyInt 0) (PyInt 0) (PyInt 0) (PyInt 0)) = Inr off
         \<and> init sv h n False = (Inr s0, h)
         \<and> data s0 = [0, 0, 0, 0] @ concat (replicate (nat n) off) @ generate_end_sequence n
         \<and> length (data s0) = 4 + 4 * nat n + nat \<lceil>of_int (max (n - 1) 0) / (16::real)\<rceil>))
   \<and> (init sv h n reset = (Inr s1, h1) \<longrightarrow>
      0 \<le> n
      \<and> data s1 = [0, 0, 0, 0] @ concat (replicate (nat n) [0xe0, 0, 0, 0])
                  @ generate_end_sequence n
      \<and> length (data s1) = 4 + 4 * nat n + nat \<lceil>of_int (max (n - 1) 0) / (16::real)\<rceil>)
   \<and> length (data (snd (setitem s i v))) = length (data s)
   \<and> length (data (snd (set_unchecked s i v))) = length (data s)
   \<and> length (data (snd (snd (commit sv (h, s))))) = length (data s)"
proof -
  have len: "length ([0, 0, 0, 0] @ concat (replicate (nat n) [0xe0, 0, 0, 0::byte])
                     @ generate_end_sequence n)
             = 4 + 4 * nat n + nat \<lceil>of_int (max (n - 1) 0) / (16::real)\<rceil>" if "0 \<le> n"
    by (simp add: length_concat_replicate4 generate_end_sequence_ceiling [OF that])
  have a: "\<exists>s0 off. pack_wrgb (LedOutput (PyInt 0) (PyInt 0) (PyInt 0) (PyInt 0)) = Inr off
         \<and> init sv h n False = (Inr s0, h)
         \<and> data s0 = [0, 0, 0, 0] @ concat (replicate (nat n) off) @ generate_end_sequence n
         \<and> length (data s0) = 4 + 4 * nat n + nat \<lceil>of_int (max (n - 1) 0) / (16::real)\<rceil>"
    if n: "0 \<le> n"
  proof (intro exI conjI)
    show "pack_wrgb (LedOutput (PyInt 0) (PyInt 0) (PyInt 0) (PyInt 0)) = Inr [0xe0, 0, 0, 0]"
      by (rule pack_wrgb_off)
    show "init sv h n False
         = (Inr \<lparr>leds = n, data_modified = True,
                 data = APA102_START @ concat (replicate (nat n) [0xe0, 0, 0, 0])
                        @ generate_end_sequence n,
                 wrgb_buffer = [0, 0, 0, 0]\<rparr>, h)"
      using n by (rule init_no_reset)
    show "data \<lparr>leds = n, data_modified = True,
                 data = APA102_START @ concat (replicate (nat n) [0xe0, 0, 0, 0])
                        @ generate_end_sequence n,
                 wrgb_buffer = [0, 0, 0, 0]\<rparr>
          = [0, 0, 0, 0] @ concat (replicate (nat n) [0xe0, 0, 0, 0]) @ generate_end_sequence n"
      by (simp add: APA102_START_def)
    show "length (data \<lparr>leds = n, data_modified = True,
                 data = APA102_START @ concat (replicate (nat n) [0xe0, 0, 0, 0])
                        @ generate_end_sequence n,
                 wrgb_buffer = [0, 0, 0, 0]\<rparr>)
          = 4 + 4 * nat n + nat \<lceil>of_int (max (n - 1) 0) / (16::real)\<rceil>"
      using len [OF n] by (simp add: APA102_START_def)
  qed
  have b: "0 \<le> n
      \<and> data s1 = [0, 0, 0, 0] @ concat (replicate (nat n) [0xe0, 0, 0, 0])
                  @ generate_end_sequence n
      \<and> length (data s1) = 4 + 4 * nat n + nat \<lceil>of_int (max (n - 1) 0) / (16::real)\<rceil>"
    if i: "init sv h n reset = (Inr s1, h1)"
  proof -
    from init_Inr [OF i] have n: "0 \<le> n"
      and d: "data s1 = [0, 0, 0, 0] @ concat (replicate (nat n) [0xe0, 0, 0, 0])
                        @ generate_end_sequence n"
      by (simp_all add: APA102_START_def)
    show ?thesis
      using n d len [OF n] by (simp only:)
  qed
  show ?thesis
    using a b by (simp only: setitem_length set_unchecked_length commit_length) blast
qed

text \<open>C7 for 17 LEDs: 4 + 68 + 1 bytes.\<close>

theorem init_framebuffer_witness:
  "\<exists>s0. init record_line_state [] 17 False = (Inr s0, [])
      \<and> data s0 = [0, 0, 0, 0] @ concat (replicate 17 [0xe0, 0, 0, 0]) @ [0]
      \<and> length (data s0) = 73
      \<and> (\<exists>s1 w. init record_line_state [] 17 True = (Inr s1, w) \<and> data s1 = data s0)"
proof -
  have k: "nat \<lceil>of_int (max (17 - 1) 0) / (16::real)\<rceil> = 1"
    by (simp add: ceiling_div16)
  have e: "generate_end_sequence 17 = [0]"
    by (simp add: generate_end_sequence_eq)
  obtain s0 where s0: "init record_line_state [] 17 False = (Inr s0, [])"
    using init_no_reset [of 17 record_line_state "[]"] by simp
  let ?s = "\<lparr>leds = 17, data_modified = True,
             data = APA102_START @ concat (replicate (nat 17) [0xe0, 0, 0, 0])
                    @ generate_end_sequence 17,
             wrgb_buffer = replicate 4 0\<rparr>"
  have "init record_line_state [] 17 True
        = (Inr (?s\<lparr>data_modified := False\<rparr>), waveform (data ?s))"
    using commit_record [of ?s "[]"] by (simp add: init_def pack_wrgb_off)
  then obtain s1 w where s1: "init record_line_state [] 17 True = (Inr s1, w)"
    by blast
  from init_framebuffer [of 17 record_line_state "[]" False s0 "[]"]
       init_framebuffer [of 17 record_line_state "[]" True s1 w] s0 s1
  show ?thesis
    by (simp add: k e pack_wrgb_off)
qed

lemma setitem_same_or_different:
  assumes "framebuffer_inv s" "0 \<le> i" "i < leds s"
    and "0 \<le> br" "br \<le> 31" "0 \<le> r" "r \<le> 255" "0 \<le> g" "g \<le> 255" "0 \<le> b" "b \<le> 255"
    and "v = LedOutput (PyInt br) (PyInt r) (PyInt g) (PyInt b)"
  shows "fst (setitem s i v) = Inr ()"
    and "getitem s i = Inr v \<Longrightarrow>
           data_modified (snd (setitem s i v)) = data_modified s
           \<and> data (snd (setitem s i v)) = data s"
    and "getitem s i \<noteq> Inr v \<Longrightarrow> data_modified (snd (setitem s i v))"
proof -
  define p :: "byte list" where
    "p = [word_of_int (br OR 0xe0), word_of_int b, word_of_int g, word_of_int r]"
  have br: "br \<le> 255" using assms(5) by simp
  have si: "setitem s i v
         = (Inr (),
            if p \<noteq> take 4 (drop (4 + 4 * nat i) (data s))
            then s\<lparr>wrgb_buffer := p,
                   data := take (4 + 4 * nat i) (data s) @ p @ drop (8 + 4 * nat i) (data s),
                   data_modified := True\<rparr>
            else s\<lparr>wrgb_buffer := p\<rparr>)"
    unfolding assms(12) setitem_valid [OF assms(2-11)]
    using assms(1-4) br assms(6-11) p_def by (rule set_unchecked_valid)
  show "fst (setitem s i v) = Inr ()"
    by (simp add: si)
  show "data_modified (snd (setitem s i v)) = data_modified s
        \<and> data (snd (setitem s i v)) = data s" if "getitem s i = Inr v"
  proof -
    have "take 4 (drop (4 + 4 * nat i) (data s)) = p"
      unfolding p_def using assms(1-11) that [unfolded assms(12)] by (rule stored_word_of_getitem)
    then show ?thesis by (simp add: si)
  qed
  show "data_modified (snd (setitem s i v))" if "getitem s i \<noteq> Inr v"
  proof -
    have "take 4 (drop (4 + 4 * nat i) (data s)) \<noteq> p"
    proof
      assume "take 4 (drop (4 + 4 * nat i) (data s)) = p"
      then have "getitem s i = Inr v"
        unfolding p_def assms(12) using assms(1-11) by (intro getitem_of_stored_word)
      with that show False by simp
    qed
    then show ?thesis by (auto simp: si)
  qed
qed

text \<open>
  C4: commit is delta-aware through the dirty flag. With the flag set, commit writes
  the waveform of the whole framebuffer, in buffer order, and clears the flag; with the
  flag clear it writes nothing and changes nothing. An indexed set of the value the
  indexed get already returns leaves flag and framebuffer as they are; an indexed set
  of another value sets the flag. Construction sets the flag, so the first commit
  transmits the full buffer (start frame, LED words, end frame) and a second commit
  right after it transmits nothing.
\<close>

theorem commit_delta_aware:
  "(data_modified s \<longrightarrow>
      commit record_line_state (w, s)
      = (Inr (), w @ waveform (data s), s\<lparr>data_modified := False\<rparr>))
   \<and> (\<not> data_modified s \<longrightarrow> commit sv (h, s) = (Inr (), h, s))
   \<and> (framebuffer_inv s \<and> 0 \<le> i \<and> i < leds s
        \<and> 0 \<le> br \<and> br \<le> 31 \<and> 0 \<le> r \<and> r \<le> 255 \<and> 0 \<le> g \<and> g \<le> 255 \<and> 0 \<le> b \<and> b \<le> 255 \<longrightarrow>
      fst (setitem s i (LedOutput (PyInt br) (PyInt r) (PyInt g) (PyInt b))) = Inr ()
      \<and> (if getitem s i = Inr (LedOutput (PyInt br) (PyInt r) (PyInt g) (PyInt b))
         then data_modified (snd (setitem s i (LedOutput (PyInt br) (PyInt r) (PyInt g) (PyInt b))))
              = data_modified s
              \<and> data (snd (setitem s i (LedOutput (PyInt br) (PyInt r) (PyInt g) (PyInt b))))
                = data s
         else data_modified (snd (setitem s i (LedOutput (PyInt br) (PyInt r) (PyInt g) (PyInt b))))))
   \<and> (0 \<le> n \<longrightarrow>
      (\<exists>s0. init sv h n False = (Inr s0, h) \<and> data_modified s0
         \<and> commit record_line_state (w, s0)
           = (Inr (),
              w @ waveform APA102_START
                @ waveform (concat (replicate (nat n) [0xe0, 0, 0, 0]))
                @ waveform (generate_end_sequence n),
              s0\<lparr>data_modified := False\<rparr>)
         \<and> commit sv (h, s0\<lparr>data_modified := False\<rparr>)
           = (Inr (), h, s0\<lparr>data_modified := False\<rparr>)))"
proof (intro conjI impI)
  assume "data_modified s"
  then show "commit record_line_state (w, s)
             = (Inr (), w @ waveform (data s), s\<lparr>data_modified := False\<rparr>)"
    by (rule commit_record)
next
  assume "\<not> data_modified s"
  then show "commit sv (h, s) = (Inr (), h, s)"
    by (rule commit_clean)
next
  assume a: "framebuffer_inv s \<and> 0 \<le> i \<and> i < leds s
        \<and> 0 \<le> br \<and> br \<le> 31 \<and> 0 \<le> r \<and> r \<le> 255 \<and> 0 \<le> g \<and> g \<le> 255 \<and> 0 \<le> b \<and> b \<le> 255"
  let ?v = "LedOutput (PyInt br) (PyInt r) (PyInt g) (PyInt b)"
  show "fst (setitem s i ?v) = Inr ()"
    by (rule setitem_same_or_different(1) [where br = br and r = r and g = g and b = b])
       (use a in simp_all)
  show "if getitem s i = Inr ?v
        then data_modified (snd (setitem s i ?v)) = data_modified s
             \<and> data (snd (setitem s i ?v)) = data s
        else data_modified (snd (setitem s i ?v))"
  proof (cases "getitem s i = Inr ?v")
    case True
    have "data_modified (snd (setitem s i ?v)) = data_modified s
          \<and> data (snd (setitem s i ?v)) = data s"
      by (rule setitem_same_or_different(2) [where br = br and r = r and g = g and b = b])
         (use a True in simp_all)
    with True show ?thesis by simp
  next
    case False
    have "data_modified (snd (setitem s i ?v))"
      by (rule setitem_same_or_different(3) [where br = br and r = r and g = g and b = b])
         (use a False in simp_all)
    with False show ?thesis by simp
  qed
next
  assume n: "0 \<le> n"
  let ?s0 = "\<lparr>leds = n, data_modified = True,
              data = APA102_START @ concat (replicate (nat n) [0xe0, 0, 0, 0])
                     @ generate_end_sequence n,
              wrgb_buffer = [0, 0, 0, 0]\<rparr>"
  have "init sv h n False = (Inr ?s0, h)"
    using n by (rule init_no_reset)
  moreover have "data_modified ?s0" by simp
  moreover have "commit record_line_state (w, ?s0)
           = (Inr (),
              w @ waveform APA102_START
                @ waveform (concat (replicate (nat n) [0xe0, 0, 0, 0]))
                @ waveform (generate_end_sequence n),
              ?s0\<lparr>data_modified := False\<rparr>)"
    using commit_record [of ?s0 w] by (simp add: waveform_append)
  moreover have "commit sv (h, ?s0\<lparr>data_modified := False\<rparr>)
           = (Inr (), h, ?s0\<lparr>data_modified := False\<rparr>)"
    by (rule commit_clean) simp
  ultimately show "\<exists>s0. init sv h n False = (Inr s0, h) \<and> data_modified s0
         \<and> commit record_line_state (w, s0)
           = (Inr (),
              w @ waveform APA102_START
                @ waveform (concat (replicate (nat n) [0xe0, 0, 0, 0]))
                @ waveform (generate_end_sequence n),
              s0\<lparr>data_modified := False\<rparr>)
         \<and> commit sv (h, s0\<lparr>data_modified := False\<rparr>)
           = (Inr (), h, s0\<lparr>data_modified := False\<rparr>)"
    by blast
qed

text \<open>
  C4 on a strip of 2 LEDs, following the unit test of the delta update: the first
  commit transmits, the second does not; on the committed strip, setting LED 0 to
  LedOutput(31, 255, 255, 255) sets the flag, setting it to the stored
  LedOutput(0, 0, 0, 0) does not.
\<close>

theorem commit_delta_aware_witness:
  "\<exists>s0 s1. init record_line_state [] 2 False = (Inr s0, [])
      \<and> data_modified s0
      \<and> commit record_line_state ([], s0) = (Inr (), waveform (data s0), s1)
      \<and> \<not> data_modified s1
      \<and> commit record_line_state (waveform (data s0), s1) = (Inr (), waveform (data s0), s1)
      \<and> getitem s1 0 = Inr (LedOutput (PyInt 0) (PyInt 0) (PyInt 0) (PyInt 0))
      \<and> fst (setitem s1 0 (LedOutput (PyInt 31) (PyInt 255) (PyInt 255) (PyInt 255))) = Inr ()
      \<and> data_modified (snd (setitem s1 0 (LedOutput (PyInt 31) (PyInt 255) (PyInt 255) (PyInt 255))))
      \<and> fst (setitem s1 0 (LedOutput (PyInt 0) (PyInt 0) (PyInt 0) (PyInt 0))) = Inr ()
      \<and> \<not> data_modified (snd (setitem s1 0 (LedOutput (PyInt 0) (PyInt 0) (PyInt 0) (PyInt 0))))"
proof -
  obtain s0 where s0: "init record_line_state [] 2 False = (Inr s0, [])"
    using init_no_reset [of 2 record_line_state "[]"] by simp
  define s1 where "s1 = s0\<lparr>data_modified := False\<rparr>"
  have inv0: "framebuffer_inv s0" and l0: "leds s0 = 2" and m0: "data_modified s0"
    and d0: "data s0 = APA102_START @ concat (replicate (nat 2) [0xe0, 0, 0, 0])
                       @ generate_end_sequence 2"
    using init_inv [OF s0] init_Inr [OF s0] by simp_all
  have inv1: "framebuffer_inv s1" and l1: "leds s1 = 2" and m1: "\<not> data_modified s1"
    and d1: "data s1 = data s0"
    using inv0 l0 by (simp_all add: s1_def framebuffer_inv_flag)
  have room: "8 + 4 * nat 0 \<le> length (data s1)"
    using inv_room [OF inv1, of 0] l1 by simp
  have g: "getitem s1 0 = Inr (LedOutput (PyInt 0) (PyInt 0) (PyInt 0) (PyInt 0))"
    using getitem_in_range [OF room] l1
    by (simp add: d1 d0 APA102_START_def numeral_2_eq_2 ledoutput_from_led_command_def)
  have c1: "commit record_line_state ([], s0) = (Inr (), waveform (data s0), s1)"
    using commit_delta_aware [of s0 "[]" record_line_state "[]" 0 0 0 0 0 0] m0
    by (simp add: s1_def)
  have c2: "commit record_line_state (waveform (data s0), s1) = (Inr (), waveform (data s0), s1)"
    using commit_delta_aware [of s1 "[]" record_line_state "waveform (data s0)" 0 0 0 0 0 0] m1
    by simp
  have different: "fst (setitem s1 0 (LedOutput (PyInt 31) (PyInt 255) (PyInt 255) (PyInt 255))) = Inr ()
      \<and> data_modified (snd (setitem s1 0 (LedOutput (PyInt 31) (PyInt 255) (PyInt 255) (PyInt 255))))"
    using commit_delta_aware [of s1 "[]" record_line_state "[]" 0 31 255 255 255 0] inv1 l1 g
    by simp
  have same: "fst (setitem s1 0 (LedOutput (PyInt 0) (PyInt 0) (PyInt 0) (PyInt 0))) = Inr ()
      \<and> \<not> data_modified (snd (setitem s1 0 (LedOutput (PyInt 0) (PyInt 0) (PyInt 0) (PyInt 0))))"
    using commit_delta_aware [of s1 "[]" record_line_state "[]" 0 0 0 0 0 0] inv1 l1 g m1
    by simp
  show ?thesis
    using s0 m0 c1 m1 c2 g different same by blast
qed

text \<open>
  C5: a transmitting commit sends every byte of the framebuffer most significant bit
  first, with exactly two pair-writes per bit: write \<open>2k\<close> of byte \<open>j\<close> has the clock low
  and the data line at bit \<open>7 - k\<close> of the byte, write \<open>2k + 1\<close> asserts the clock high
  with the data line unchanged. For the byte 0x88 the data values at the eight clock
  assertions are 1, 0, 0, 0, 1, 0, 0, 0.
\<close>

theorem commit_bit_protocol:
  "(data_modified s \<longrightarrow>
      (\<exists>tr. commit record_line_state ([], s) = (Inr (), tr, s\<lparr>data_modified := False\<rparr>)
         \<and> length tr = 2 * (8 * length (data s))
         \<and> (\<forall>j < length (data s). \<forall>k < 8.
               tr ! (16 * j + 2 * k) = (0, of_bool (bit (data s ! j) (7 - k)))
               \<and> tr ! (16 * j + 2 * k + 1) = (1, of_bool (bit (data s ! j) (7 - k))))))
   \<and> snd (commit_byte record_line_state 0x88 [])
       = [(0, 1), (1, 1), (0, 0), (1, 0), (0, 0), (1, 0), (0, 0), (1, 0),
          (0, 1), (1, 1), (0, 0), (1, 0), (0, 0), (1, 0), (0, 0), (1, 0)]
   \<and> map snd (filter (\<lambda>(clock, dat). clock = 1) (snd (commit_byte record_line_state 0x88 [])))
       = [1, 0, 0, 0, 1, 0, 0, 0]"
proof (intro conjI impI)
  assume m: "data_modified s"
  show "\<exists>tr. commit record_line_state ([], s) = (Inr (), tr, s\<lparr>data_modified := False\<rparr>)
         \<and> length tr = 2 * (8 * length (data s))
         \<and> (\<forall>j < length (data s). \<forall>k < 8.
               tr ! (16 * j + 2 * k) = (0, of_bool (bit (data s ! j) (7 - k)))
               \<and> tr ! (16 * j + 2 * k + 1) = (1, of_bool (bit (data s ! j) (7 - k))))"
  proof (intro exI conjI allI impI)
    show "commit record_line_state ([], s)
          = (Inr (), waveform (data s), s\<lparr>data_modified := False\<rparr>)"
      using commit_record [OF m, of "[]"] by simp
    show "length (waveform (data s)) = 2 * (8 * length (data s))"
      by (simp add: length_waveform)
  next
    fix j k assume "j < length (data s)" "k < (8::nat)"
    then show "waveform (data s) ! (16 * j + 2 * k) = (0, of_bool (bit (data s ! j) (7 - k)))"
      and "waveform (data s) ! (16 * j + 2 * k + 1) = (1, of_bool (bit (data s ! j) (7 - k)))"
      by (rule waveform_bit)+
  qed
next
  show "snd (commit_byte record_line_state 0x88 [])
       = [(0, 1), (1, 1), (0, 0), (1, 0), (0, 0), (1, 0), (0, 0), (1, 0),
          (0, 1), (1, 1), (0, 0), (1, 0), (0, 0), (1, 0), (0, 0), (1, 0)]"
    by (simp only: commit_byte_record snd_conv append_Nil byte_wave_0x88)
  then show "map snd (filter (\<lambda>(clock, dat). clock = 1)
                       (snd (commit_byte record_line_state 0x88 [])))
             = [1, 0, 0, 0, 1, 0, 0, 0]"
    by simp
qed

text \<open>
  C5 on one LED set to LedOutput(0, 0, 0, 0x88): byte 5 of the framebuffer is the blue
  channel 0x88, whose 16 writes start at position 80 of the 128 writes.
\<close>

theorem commit_bit_protocol_witness:
  "\<exists>s0 s tr. init record_line_state [] 1 False = (Inr s0, [])
      \<and> setitem s0 0 (LedOutput (PyInt 0) (PyInt 0) (PyInt 0) (PyInt 0x88)) = (Inr (), s)
      \<and> data s = [0, 0, 0, 0, 0xe0, 0x88, 0, 0]
      \<and> commit record_line_state ([], s) = (Inr (), tr, s\<lparr>data_modified := False\<rparr>)
      \<and> length tr = 128
      \<and> map (\<lambda>k. tr ! (80 + 2 * k)) [0, 1, 2, 3, 4, 5, 6, 7]
          = [(0, 1), (0, 0), (0, 0), (0, 0), (0, 1), (0, 0), (0, 0), (0, 0)]
      \<and> map (\<lambda>k. tr ! (80 + 2 * k + 1)) [0, 1, 2, 3, 4, 5, 6, 7]
          = [(1, 1), (1, 0), (1, 0), (1, 0), (1, 1), (1, 0), (1, 0), (1, 0)]"
proof -
  obtain s0 where s0: "init record_line_state [] 1 False = (Inr s0, [])"
    using init_no_reset [of 1 record_line_state "[]"] by simp
  have inv0: "framebuffer_inv s0" and l0: "leds s0 = 1"
    and d0: "data s0 = [0, 0, 0, 0, 0xe0, 0, 0, 0]"
    using init_inv [OF s0] init_Inr [OF s0]
    by (simp_all add: APA102_START_def generate_end_sequence_eq)
  define s where "s = snd (setitem s0 0 (LedOutput (PyInt 0) (PyInt 0) (PyInt 0) (PyInt 0x88)))"
  have su: "set_unchecked s0 0 (LedOutput (PyInt 0) (PyInt 0) (PyInt 0) (PyInt 0x88))
            = (Inr (), s0\<lparr>wrgb_buffer := [0xe0, 0x88, 0, 0],
                            data := [0, 0, 0, 0, 0xe0, 0x88, 0, 0],
                            data_modified := True\<rparr>)"
    using set_unchecked_valid [OF inv0, of 0 0 0 0 "0x88" _] l0 by (simp add: d0)
  have si: "setitem s0 0 (LedOutput (PyInt 0) (PyInt 0) (PyInt 0) (PyInt 0x88)) = (Inr (), s)"
    and d: "data s = [0, 0, 0, 0, 0xe0, 0x88, 0, 0]" and m: "data_modified s"
    using l0 by (simp_all add: s_def setitem_valid su)
  from commit_bit_protocol [of s] m obtain tr
    where c: "commit record_line_state ([], s) = (Inr (), tr, s\<lparr>data_modified := False\<rparr>)"
      and len: "length tr = 2 * (8 * length (data s))"
      and bits: "\<forall>j < length (data s). \<forall>k < 8.
               tr ! (16 * j + 2 * k) = (0, of_bool (bit (data s ! j) (7 - k)))
               \<and> tr ! (16 * j + 2 * k + 1) = (1, of_bool (bit (data s ! j) (7 - k)))"
    by blast
  have b: "tr ! (80 + 2 * k) = (0, of_bool (bit (0x88 :: byte) (7 - k)))
           \<and> tr ! (80 + 2 * k + 1) = (1, of_bool (bit (0x88 :: byte) (7 - k)))" if "k < 8" for k
    using bits [rule_format, of 5 k] that by (simp add: d)
  have low: "map (\<lambda>k. tr ! (80 + 2 * k)) [0, 1, 2, 3, 4, 5, 6, 7]
          = [(0, 1), (0, 0), (0, 0), (0, 0), (0, 1), (0, 0), (0, 0), (0, 0)]"
    using b [of 0] b [of 1] b [of 2] b [of 3] b [of 4] b [of 5] b [of 6] b [of 7] by simp
  have high: "map (\<lambda>k. tr ! (80 + 2 * k + 1)) [0, 1, 2, 3, 4, 5, 6, 7]
          = [(1, 1), (1, 0), (1, 0), (1, 0), (1, 1), (1, 0), (1, 0), (1, 0)]"
    using b [of 0] b [of 1] b [of 2] b [of 3] b [of 4] b [of 5] b [of 6] b [of 7] by simp
  have len128: "length tr = 128"
    using len by (simp add: d)
  show ?thesis
    by (intro exI [of _ s0] exI [of _ s] exI [of _ tr] conjI)
       (rule s0 si d c len128 low high)+
qed

lemma commit_failing:
  assumes "data_modified s"
  shows "commit failing_lines ((k, w), s) =
     (if k < 16 * length (data s) then (Inl OSError, (0, w @ take k (waveform (data s))), s)
      else (Inr (), (k - 16 * length (data s), w @ waveform (data s)),
            s\<lparr>data_modified := False\<rparr>))"
  using assms by (simp add: commit_def commit_bytes_failing)

text \<open>
  C6: commit has no partial success. Whatever the line handle does, a commit that
  raises leaves the controller as it was, with the dirty flag set. On lines that fail
  after \<open>k\<close> writes, a commit of a dirty framebuffer of more than \<open>k\<close> writes raises after
  exactly the first \<open>k\<close> writes of the waveform and keeps the flag, and the flag is
  cleared only when all writes went through. A commit retried after a failure
  transmits the whole framebuffer from its first byte.
\<close>

theorem commit_failure_keeps_dirty:
  "(commit sv (h, s) = (Inl e, h1, s1) \<longrightarrow>
      s1 = s \<and> data_modified s1
      \<and> commit record_line_state (w, s1)
        = (Inr (), w @ waveform (data s), s\<lparr>data_modified := False\<rparr>))
   \<and> (data_modified s \<and> k < 16 * length (data s) \<longrightarrow>
      commit failing_lines ((k, w), s)
      = (Inl OSError, (0, w @ take k (waveform (data s))), s))
   \<and> (data_modified s \<and> 16 * length (data s) \<le> k \<longrightarrow>
      commit failing_lines ((k, w), s)
      = (Inr (), (k - 16 * length (data s), w @ waveform (data s)),
         s\<lparr>data_modified := False\<rparr>))"
proof (intro conjI impI)
  assume c: "commit sv (h, s) = (Inl e, h1, s1)"
  from commit_Inl [OF c] show "s1 = s" and m: "data_modified s1"
    by simp_all
  from commit_Inl [OF c] have "s1 = s" by simp
  with m show "commit record_line_state (w, s1)
        = (Inr (), w @ waveform (data s), s\<lparr>data_modified := False\<rparr>)"
    using commit_record [of s w] by simp
next
  assume "data_modified s \<and> k < 16 * length (data s)"
  then show "commit failing_lines ((k, w), s)
      = (Inl OSError, (0, w @ take k (waveform (data s))), s)"
    by (simp add: commit_failing)
next
  assume "data_modified s \<and> 16 * length (data s) \<le> k"
  then show "commit failing_lines ((k, w), s)
      = (Inr (), (k - 16 * length (data s), w @ waveform (data s)),
         s\<lparr>data_modified := False\<rparr>)"
    by (simp add: commit_failing)
qed

text \<open>
  C6 on a fresh strip of one LED (8 bytes, 128 writes) whose lines fail after 3
  writes: the commit raises with the flag still set, the retry transmits everything,
  and lines good for 128 writes let the commit clear the flag.
\<close>

theorem commit_failure_keeps_dirty_witness:
  "\<exists>s0. init failing_lines (3, []) 1 False = (Inr s0, (3, []))
      \<and> commit failing_lines ((3, []), s0) = (Inl OSError, (0, [(0, 0), (1, 0), (0, 0)]), s0)
      \<and> data_modified s0
      \<and> commit record_line_state ([], s0)
        = (Inr (), waveform (data s0), s0\<lparr>data_modified := False\<rparr>)
      \<and> commit failing_lines ((128, []), s0)
        = (Inr (), (0, waveform (data s0)), s0\<lparr>data_modified := False\<rparr>)"
proof -
  obtain s0 where s0: "init failing_lines (3, []) 1 False = (Inr s0, (3, []))"
    using init_no_reset [of 1 failing_lines "(3, [])"] by simp
  have m: "data_modified s0" and d0: "data s0 = [0, 0, 0, 0, 0xe0, 0, 0, 0]"
    using init_Inr [OF s0] by (simp_all add: APA102_START_def generate_end_sequence_eq)
  have t: "take 3 (waveform (data s0)) = [(0, 0), (1, 0), (0, 0)]"
    by (simp add: d0 waveform_def byte_wave_eq)
  have c: "commit failing_lines ((3, []), s0) = (Inl OSError, (0, [(0, 0), (1, 0), (0, 0)]), s0)"
    using commit_failure_keeps_dirty [of failing_lines "(3, [])" s0 OSError "(0, [])" s0 "[]" 3] m t
    by (simp add: d0)
  have r: "commit record_line_state ([], s0)
        = (Inr (), waveform (data s0), s0\<lparr>data_modified := False\<rparr>)"
    using commit_failure_keeps_dirty
            [of failing_lines "(3, [])" s0 OSError "(0, [(0, 0), (1, 0), (0, 0)])" s0 "[]" 3] c
    by simp
  have f: "commit failing_lines ((128, []), s0)
        = (Inr (), (0, waveform (data s0)), s0\<lparr>data_modified := False\<rparr>)"
    using commit_failure_keeps_dirty [of failing_lines "(3, [])" s0 OSError "(0, [])" s0 "[]" 128] m
    by (simp add: d0)
  show ?thesis
    by (intro exI [of _ s0] conjI) (rule s0 c m r f)+
qed

lemma setitem_invalid: "check_ledoutput_range v = Inl e \<Longrightarrow> setitem s i v = (Inl e, s)"
  by (simp add: setitem_def)

lemma check_ledoutput_range_Inl: "check_ledoutput_range v = Inl e \<Longrightarrow> \<exists>m. e = ValueError m"
  by (auto simp: check_ledoutput_range_def split: if_splits)

lemma check_ledoutput_range_float:
  "check_ledoutput_range (LedOutput (PyFloat 0) (PyInt 0) (PyInt 0) (PyInt 0))
   = Inl (ValueError [Lit ''LedOutput'', Lit '': brightness setting invalid '',
                      Lit ''got '', Repr (PyFloat 0),
                      Lit '', expected integer within [0, 0x1f]''])"
  by (simp add: check_ledoutput_range_def)

text \<open>
  C2 does not hold of the code: for an invalid green (or blue) channel the message
  names the field but interpolates the red channel. Setting an LED to
  LedOutput(0, 7, 256, 0) raises a ValueError whose message reads
  \<open>green setting invalid: got 7\<close>, and does not contain the invalid value 256.
\<close>

theorem setitem_green_message:
  "setitem s 0 (LedOutput (PyInt 0) (PyInt 7) (PyInt 256) (PyInt 0))
   = (Inl (ValueError [Lit ''LedOutput'', Lit '': green setting invalid: '',
                       Lit ''got '', Repr (PyInt 7),
                       Lit '', expected integer within [0, 0xff]'']), s)
   \<and> Repr (PyInt 256) \<notin> set [Lit ''LedOutput'', Lit '': green setting invalid: '',
                       Lit ''got '', Repr (PyInt 7),
                       Lit '', expected integer within [0, 0xff]'']"
  by (simp add: setitem_def check_ledoutput_range_def)

end
